theory Spec2Isabelle
  imports Main "HOL-Library.Word"
begin

unbundle bit_operations_syntax

section \<open>Failures\<close>

text \<open>
  The validator is C++ over structures produced by an ASN.1 compiler, in which every
  optional member is a pointer that is null when the element is absent. A null
  dereference, a failed \<^verbatim>\<open>assert\<close>, an out-of-range array read, a C++ \<^verbatim>\<open>throw\<close>
  and an exception of the database layer all end the run; each is a value of \<open>error\<close>,
  and a function that can hit one returns \<open>error + 'a\<close>. Log lines are not modelled.
\<close>

datatype error =
    NullDereference
  | AssertionFailed
  | OutOfBounds
  | Thrown string
  | OtlException

definition ebind :: "error + 'a \<Rightarrow> ('a \<Rightarrow> error + 'b) \<Rightarrow> error + 'b" where
  "ebind m f = (case m of Inl e \<Rightarrow> Inl e | Inr x \<Rightarrow> f x)"

text \<open>\<^verbatim>\<open>p->\<close> on an optional member.\<close>

definition deref :: "'a option \<Rightarrow> error + 'a" where
  "deref p = (case p of None \<Rightarrow> Inl NullDereference | Some x \<Rightarrow> Inr x)"

definition c_assert :: "bool \<Rightarrow> error + unit" where
  "c_assert b = (if b then Inr () else Inl AssertionFailed)"

section \<open>Decoded TAP structures\<close>

text \<open>
  An \<^verbatim>\<open>OCTET_STRING\<close> holding text is a \<open>string\<close>. Members that the validator only
  tests for presence and copies keep their content as raw octets. Members that
  \<^verbatim>\<open>TAPValidator.cpp\<close> never touches are left out.
\<close>

type_synonym OCTET_STRING = string

record DateTimeLong =
  localTimeStamp :: "OCTET_STRING option"
  utcTimeOffset :: "OCTET_STRING option"

record BatchControlInfo =
  bci_sender :: "OCTET_STRING option"
  bci_recipient :: "OCTET_STRING option"
  bci_fileSequenceNumber :: "OCTET_STRING option"
  bci_fileCreationTimeStamp :: "DateTimeLong option"
  bci_transferCutOffTimeStamp :: "DateTimeLong option"
  bci_fileAvailableTimeStamp :: "DateTimeLong option"
  bci_specificationVersionNumber :: "int option"
  bci_releaseVersionNumber :: "int option"
  bci_fileTypeIndicator :: "OCTET_STRING option"
  bci_rapFileSequenceNumber :: "OCTET_STRING option"
  bci_operatorSpecInformation :: "OCTET_STRING list option"

record CurrencyConversion =
  exchangeRateCode :: "int option"
  numberOfDecimalPlaces :: "int option"
  exchangeRate :: "int option"

record AccountingInfo =
  taxation :: "OCTET_STRING list option"
  discounting :: "OCTET_STRING list option"
  localCurrency :: "OCTET_STRING option"
  tapCurrency :: "OCTET_STRING option"
  currencyConversionInfo :: "CurrencyConversion list option"
  tapDecimalPlaces :: "int option"

record NetworkInfo =
  utcTimeOffsetInfo :: "OCTET_STRING list option"
  recEntityInfo :: "OCTET_STRING list option"

record AuditControlInfo =
  earliestCallTimeStamp :: "DateTimeLong option"
  latestCallTimeStamp :: "DateTimeLong option"
  totalCharge :: "OCTET_STRING option"
  totalChargeRefund :: "OCTET_STRING option"
  totalTaxRefund :: "OCTET_STRING option"
  totalTaxValue :: "OCTET_STRING option"
  totalDiscountValue :: "OCTET_STRING option"
  totalDiscountRefund :: "OCTET_STRING option"
  totalAdvisedChargeValueList :: "OCTET_STRING list option"
  callEventDetailsCount :: "int option"
  aci_operatorSpecInformation :: "OCTET_STRING list option"

record ChargeDetail =
  charge :: "OCTET_STRING option"

record ChargeInformation =
  taxInformation :: "OCTET_STRING list option"
  discountInformation :: "OCTET_STRING option"
  chargeDetailList :: "ChargeDetail list option"

record BasicServiceUsed =
  bsu_chargeInformationList :: "ChargeInformation list option"

record GprsServiceUsed =
  gsu_chargeInformationList :: "ChargeInformation list option"

record MobileOriginatedCall =
  moc_basicServiceUsedList :: "BasicServiceUsed list option"

record MobileTerminatedCall =
  mtc_basicServiceUsedList :: "BasicServiceUsed list option"

record GprsCall =
  gprsServiceUsed :: "GprsServiceUsed option"

text \<open>
  \<^verbatim>\<open>CallEventDetail\<close> is a tagged union; the validator compares its tag with three
  values only, so the remaining variants are one constructor.
\<close>

datatype CallEventDetail =
    CallEventDetail_mobileOriginatedCall MobileOriginatedCall
  | CallEventDetail_mobileTerminatedCall MobileTerminatedCall
  | CallEventDetail_gprsCall GprsCall
  | CallEventDetail_other

record TransferBatch =
  batchControlInfo :: "BatchControlInfo option"
  accountingInfo :: "AccountingInfo option"
  networkInfo :: "NetworkInfo option"
  callEventDetails :: "CallEventDetail list option"
  auditControlInfo :: "AuditControlInfo option"

record Notification =
  ntf_sender :: "OCTET_STRING option"
  ntf_recipient :: "OCTET_STRING option"
  ntf_fileSequenceNumber :: "OCTET_STRING option"

datatype DataInterChange =
    DataInterChange_transferBatch TransferBatch
  | DataInterChange_notification Notification
  | DataInterChange_NOTHING

section \<open>Decoded RAP structures\<close>

record ErrorContext =
  pathItemId :: int
  itemLevel :: int

record ErrorDetail =
  errorCode :: int
  errorContext :: "ErrorContext list"

record TransferBatchError =
  tbe_errorDetail :: "ErrorDetail list"

record BatchControlError =
  bce_batchControlInfo :: BatchControlInfo
  bce_errorDetail :: "ErrorDetail list"

record AccountingInfoError =
  aie_accountingInfo :: AccountingInfo
  aie_errorDetail :: "ErrorDetail list"

record NetworkInfoError =
  nie_networkInfo :: NetworkInfo
  nie_errorDetail :: "ErrorDetail list"

record AuditControlInfoError =
  acie_auditControlInfo :: AuditControlInfo
  acie_errorDetail :: "ErrorDetail list"

record FatalReturn =
  fr_fileSequenceNumber :: OCTET_STRING
  transferBatchError :: "TransferBatchError option"
  batchControlError :: "BatchControlError option"
  accountingInfoError :: "AccountingInfoError option"
  networkInfoError :: "NetworkInfoError option"
  auditControlInfoError :: "AuditControlInfoError option"

datatype ReturnDetail =
    ReturnDetail_NOTHING
  | ReturnDetail_fatalReturn FatalReturn

record RapBatchControlInfo =
  rap_sender :: OCTET_STRING
  rap_recipient :: OCTET_STRING
  rapFileSequenceNumber :: OCTET_STRING
  rapFileCreationTimeStamp :: DateTimeLong
  rapFileAvailableTimeStamp :: DateTimeLong
  rap_tapDecimalPlaces :: "int option"
  rapSpecificationVersionNumber :: int
  rapReleaseVersionNumber :: int
  rap_specificationVersionNumber :: "int option"
  rap_releaseVersionNumber :: "int option"
  rap_fileTypeIndicator :: "OCTET_STRING option"

record RapAuditControlInfo =
  totalSevereReturnValue :: "8 word list"
  returnDetailsCount :: int

record ReturnBatch =
  rapBatchControlInfoRap :: RapBatchControlInfo
  returnDetails :: "ReturnDetail list"
  rapAuditControlInfo :: RapAuditControlInfo

text \<open>\<^verbatim>\<open>calloc(1, sizeof(...))\<close>: every member zero, every pointer null.\<close>

definition calloc_FatalReturn :: FatalReturn where
  "calloc_FatalReturn =
     \<lparr>fr_fileSequenceNumber = [], transferBatchError = None, batchControlError = None,
      accountingInfoError = None, networkInfoError = None, auditControlInfoError = None\<rparr>"

definition calloc_ReturnBatch :: ReturnBatch where
  "calloc_ReturnBatch =
     \<lparr>rapBatchControlInfoRap =
        \<lparr>rap_sender = [], rap_recipient = [], rapFileSequenceNumber = [],
         rapFileCreationTimeStamp = \<lparr>localTimeStamp = None, utcTimeOffset = None\<rparr>,
         rapFileAvailableTimeStamp = \<lparr>localTimeStamp = None, utcTimeOffset = None\<rparr>,
         rap_tapDecimalPlaces = None, rapSpecificationVersionNumber = 0,
         rapReleaseVersionNumber = 0, rap_specificationVersionNumber = None,
         rap_releaseVersionNumber = None, rap_fileTypeIndicator = None\<rparr>,
      returnDetails = [],
      rapAuditControlInfo = \<lparr>totalSevereReturnValue = [], returnDetailsCount = 0\<rparr>\<rparr>"


section \<open>What the source file takes from elsewhere\<close>

text \<open>
  \<^verbatim>\<open>TAP_Constants.h\<close> is not part of the sources at hand: its integer constants are
  the fields of one record, and every function below takes them as a parameter.
\<close>

record TAP_Constants =
  TL_OK :: int
  TL_FILEERROR :: int
  TL_DECODEERROR :: int
  OUTFILE_CREATED_AND_SENT :: int
  TF_BATCH_BATCH_CONTROL_INFO_MISSING :: int
  TF_BATCH_ACCOUNTING_INFO_MISSING :: int
  TF_BATCH_NETWORK_INFO_MISSING :: int
  TF_BATCH_AUDIT_CONTROL_INFO_MISSING :: int
  BATCH_CTRL_FILE_AVAIL_TIMESTAMP_MISSING :: int
  BATCH_CTRL_SPEC_VERSION_MISSING :: int
  BATCH_CTRL_TRANSFER_CUTOFF_MISSING :: int
  ACCOUNTING_LOCAL_CURRENCY_MISSING :: int
  ACCOUNTING_TAP_DECIMAL_PLACES_MISSING :: int
  ACCOUNTING_TAXATION_MISSING :: int
  ACCOUNTING_DISCOUNTING_MISSING :: int
  ACCOUNTING_CURRENCY_CONVERSION_MISSING :: int
  CURRENCY_CONVERSION_EXRATE_CODE_MISSING :: int
  CURRENCY_CONVERSION_NUM_OF_DEC_PLACES_MISSING :: int
  CURRENCY_CONVERSION_EXCHANGE_RATE_MISSING :: int
  CURRENCY_CONVERSION_EXRATE_CODE_DUPLICATION :: int
  NETWORK_UTC_TIMEOFFSET_MISSING :: int
  NETWORK_REC_ENTITY_MISSING :: int
  AUDIT_CTRL_TOTAL_CHARGE_MISSING :: int
  AUDIT_CTRL_TOTAL_TAX_VALUE_MISSING :: int
  AUDIT_CTRL_TOTAL_DISCOUNT_MISSING :: int
  AUDIT_CTRL_CALL_COUNT_MISSING :: int
  CALL_COUNT_MISMATCH :: int

text \<open>
  The type descriptors \<^verbatim>\<open>asn_DEF_...\<close> come from the generated codec. The validator
  reads nothing of them but \<^verbatim>\<open>tags[0]\<close>, and the descriptors it names are those of
  tagged types, whose tag array has a first element: that element is the one field
  here. A tag is a \<^verbatim>\<open>ber_tlv_tag_t\<close> (unsigned, 32 bits).
\<close>

record asn_TYPE_descriptor_t =
  tags_0 :: "32 word"

record asn_descriptors =
  asn_DEF_TransferBatch :: asn_TYPE_descriptor_t
  asn_DEF_BatchControlInfo :: asn_TYPE_descriptor_t
  asn_DEF_AccountingInfo :: asn_TYPE_descriptor_t
  asn_DEF_NetworkInfo :: asn_TYPE_descriptor_t
  asn_DEF_AuditControlInfo :: asn_TYPE_descriptor_t
  asn_DEF_CurrencyConversionList :: asn_TYPE_descriptor_t
  asn_DEF_CallEventDetailsCount :: asn_TYPE_descriptor_t

text \<open>What the stored procedure \<^verbatim>\<open>CreateRAPFileByTAPLoader\<close> hands back.\<close>

record CatalogueReply =
  cr_filename :: string
  cr_rapSequenceNum :: string
  cr_mobileNetworkID :: int
  cr_roamingHubID :: int
  cr_roamingHubName :: string
  cr_timeStamp :: string
  cr_utcOffset :: string
  cr_tapVersion :: int
  cr_tapRelease :: int
  cr_rapVersion :: int
  cr_rapRelease :: int
  cr_tapDecimalPlaces :: int
  cr_rapFileID :: int

record FtpSetting =
  ftpServer :: string
  ftpUsername :: string
  ftpPassword :: string
  ftpPort :: string
  ftpDirectory :: string

text \<open>
  The external collaborators, as functions of their arguments: the catalogue call
  (which can raise in the database layer), \<^verbatim>\<open>LoadReturnBatchToDB\<close>, \<^verbatim>\<open>fopen\<close> for
  writing, the DER encoder (its \<^verbatim>\<open>encoded\<close> count, \<open>-1\<close> on failure), the
  configuration, and the FTP client. \<open>charge_gt_zero d c\<close> stands for the C expression
  \<^verbatim>\<open>OctetStr2Int64(c) / pow((double) 10, d) > 0\<close>: the decoder is external and the
  comparison is in double precision, so its value is a parameter too.
\<close>

record externals =
  CreateRAPFileByTAPLoader :: "string \<Rightarrow> int \<Rightarrow> string \<Rightarrow> error + CatalogueReply"
  LoadReturnBatchToDB :: "ReturnBatch \<Rightarrow> int \<Rightarrow> string \<Rightarrow> int \<Rightarrow> int"
  fopen_wb :: "string \<Rightarrow> bool"
  der_encode :: "ReturnBatch \<Rightarrow> int"
  GetOutputDirectory :: string
  GetFTPSetting :: "string \<Rightarrow> FtpSetting"
  ncftp_main :: "string list \<Rightarrow> int"
  charge_gt_zero :: "int \<Rightarrow> OCTET_STRING \<Rightarrow> bool"

record env =
  tap_constants :: TAP_Constants
  asn_defs :: asn_descriptors
  ext :: externals

text \<open>
  The calls made to the outside, in order. A RAP file exists once \<open>EvDerEncode\<close> has
  happened for it; a catalogue row exists once \<open>EvLoadToDB\<close> has.
\<close>

datatype event =
    EvCatalogue string int string
  | EvLoadToDB ReturnBatch int string int
  | EvFopen string
  | EvDerEncode string ReturnBatch
  | EvFtp "string list"

text \<open>The members of \<^verbatim>\<open>TAPValidator\<close> that change, and the trace of outside calls.\<close>

record state =
  m_rapFileID :: int
  m_rapSequenceNum :: string
  world :: "event list"

text \<open>The constructor: \<^verbatim>\<open>m_rapFileID(0)\<close>, an empty string, nothing done yet.\<close>

definition TAPValidator_init :: state where
  "TAPValidator_init = \<lparr>m_rapFileID = 0, m_rapSequenceNum = [], world = []\<rparr>"

datatype TAPValidationResult = TAP_VALID | FATAL_ERROR | VALIDATION_IMPOSSIBLE

section \<open>RAPFile\<close>

subsection \<open>OctetString_fromInt64\<close>

text \<open>
  \<^verbatim>\<open>long long\<close> is a 64-bit word read as two's complement; \<^verbatim>\<open>>>= 8\<close> on it is the
  arithmetic shift. The loop \<^verbatim>\<open>for (i = 7; i >= 0; i--)\<close> is a recursion on \<open>i\<close> that
  returns the index at which it stopped (\<open>-1\<close> when it ran to the end without a break),
  the remaining value and the buffer. The scratch buffer starts as zeros: no cell is
  read before it is written.
\<close>

fun fromInt64_fill :: "nat \<Rightarrow> 64 word \<Rightarrow> 8 word list \<Rightarrow> int \<times> 64 word \<times> 8 word list" where
  "fromInt64_fill 0 v buf =
     (let buf' = buf[0 := ucast (v AND 0xFF)]; v' = signed_drop_bit 8 v
      in if v' = 0 then (0, v', buf') else (- 1, v', buf'))"
| "fromInt64_fill (Suc i) v buf =
     (let buf' = buf[Suc i := ucast (v AND 0xFF)]; v' = signed_drop_bit 8 v
      in if v' = 0 then (int (Suc i), v', buf') else fromInt64_fill i v' buf')"

text \<open>Returns the octets and the count \<^verbatim>\<open>8 - i\<close>. Reading \<^verbatim>\<open>buf[-1]\<close> is out of bounds.\<close>

definition OctetString_fromInt64 :: "64 word \<Rightarrow> error + (8 word list \<times> int)" where
  "OctetString_fromInt64 v =
     (case fromInt64_fill 7 v (replicate 8 0) of (i, v', buf) \<Rightarrow>
        if i = 0 \<and> 0 < sint v' then Inl (Thrown ''8-byte integer overflow'')
        else if i < 0 then Inl OutOfBounds
        else if 0x80 \<le> buf ! nat i then
          (if i = 0 then Inl (Thrown ''8-byte integer overflow'')
           else let j = i - 1; buf' = buf[nat j := 0]
                in Inr (drop (nat j) buf', 8 - j))
        else Inr (drop (nat i) buf, 8 - i))"

subsection \<open>UploadFileToFtp and EncodeAndUpload\<close>

text \<open>
  \<^verbatim>\<open>UploadFileToFtp\<close> returns whether the client exited with 0; the \<^verbatim>\<open>catch (...)\<close>
  around it cannot be entered by the C client.
\<close>

definition UploadFileToFtp :: "env \<Rightarrow> string \<Rightarrow> string \<Rightarrow> FtpSetting \<Rightarrow> event list \<Rightarrow> bool \<times> event list" where
  "UploadFileToFtp e filename fullFileName ftpSetting w =
     (let port = (if length (ftpPort ftpSetting) = 0 then ''21'' else ftpPort ftpSetting);
          pszArguments = [''ncftpput'', ''-u'', ftpUsername ftpSetting, ''-p'',
             ftpPassword ftpSetting, ''-P'', port, ftpServer ftpSetting,
             ftpDirectory ftpSetting, fullFileName];
          ftpResult = ncftp_main (ext e) pszArguments
      in (ftpResult = 0, w @ [EvFtp pszArguments]))"

text \<open>The path separator is the one of the non-Windows build.\<close>

definition EncodeAndUpload :: "env \<Rightarrow> ReturnBatch \<Rightarrow> string \<Rightarrow> string \<Rightarrow> event list \<Rightarrow> int \<times> event list" where
  "EncodeAndUpload e returnBatch filename roamingHubName w =
     (let fullFileName = (if GetOutputDirectory (ext e) = [] then ''.'' else GetOutputDirectory (ext e))
                           @ ''/'' @ filename;
          w1 = w @ [EvFopen fullFileName]
      in if \<not> fopen_wb (ext e) fullFileName then (TL_FILEERROR (tap_constants e), w1)
         else let w2 = w1 @ [EvDerEncode fullFileName returnBatch]
              in if der_encode (ext e) returnBatch = - 1 then (TL_DECODEERROR (tap_constants e), w2)
                 else let ftpSetting = GetFTPSetting (ext e) roamingHubName
                      in if ftpServer ftpSetting \<noteq> [] then
                           (case UploadFileToFtp e filename fullFileName ftpSetting w2 of
                              (ok, w3) \<Rightarrow> if \<not> ok then (TL_FILEERROR (tap_constants e), w3)
                                          else (TL_OK (tap_constants e), w3))
                         else (TL_OK (tap_constants e), w2))"

subsection \<open>CreateRAPFile\<close>

text \<open>
  The result is the return value, the \<^verbatim>\<open>ReturnBatch\<close> as filled in, the two
  reference parameters \<^verbatim>\<open>rapFileID\<close> and \<^verbatim>\<open>rapSequenceNum\<close>, and the trace.
\<close>

definition CreateRAPFile ::
  "env \<Rightarrow> ReturnBatch \<Rightarrow> ReturnDetail \<Rightarrow> string \<Rightarrow> string \<Rightarrow> string \<Rightarrow> string \<Rightarrow> event list
     \<Rightarrow> error + (int \<times> ReturnBatch \<times> int \<times> string \<times> event list)" where
  "CreateRAPFile e returnBatch returnDetail sender recipient tapAvailableStamp fileTypeIndicator w =
     (let testData = (if length fileTypeIndicator > 0 then 1 else 0);
          w1 = w @ [EvCatalogue recipient testData tapAvailableStamp]
      in ebind (CreateRAPFileByTAPLoader (ext e) recipient testData tapAvailableStamp) (\<lambda>r.
         let stamp = \<lparr>localTimeStamp = Some (cr_timeStamp r), utcTimeOffset = Some (cr_utcOffset r)\<rparr>;
             hdr = (rapBatchControlInfoRap returnBatch)
                     \<lparr>rap_sender := sender,
                      rap_recipient := recipient,
                      rapFileSequenceNumber := cr_rapSequenceNum r,
                      rapFileCreationTimeStamp := stamp,
                      rapFileAvailableTimeStamp := stamp,
                      rap_tapDecimalPlaces := Some (cr_tapDecimalPlaces r),
                      rapSpecificationVersionNumber := cr_rapVersion r,
                      rapReleaseVersionNumber := cr_rapRelease r,
                      rap_specificationVersionNumber := Some (cr_tapVersion r),
                      rap_releaseVersionNumber := Some (cr_tapRelease r)\<rparr>;
             hdr' = (if fileTypeIndicator \<noteq> []
                     then hdr\<lparr>rap_fileTypeIndicator := Some fileTypeIndicator\<rparr> else hdr)
         in ebind (OctetString_fromInt64 0) (\<lambda>(octets, n).
            let rb = returnBatch
                       \<lparr>rapBatchControlInfoRap := hdr',
                        returnDetails := returnDetails returnBatch @ [returnDetail],
                        rapAuditControlInfo :=
                          \<lparr>totalSevereReturnValue = octets, returnDetailsCount = 1\<rparr>\<rparr>;
                loadResult = LoadReturnBatchToDB (ext e) rb (cr_rapFileID r) (cr_filename r)
                               (OUTFILE_CREATED_AND_SENT (tap_constants e));
                w2 = w1 @ [EvLoadToDB rb (cr_rapFileID r) (cr_filename r)
                             (OUTFILE_CREATED_AND_SENT (tap_constants e))]
            in if loadResult \<ge> 0 then
                 (case EncodeAndUpload e rb (cr_filename r) (cr_roamingHubName r) w2 of
                    (res, w3) \<Rightarrow> Inr (res, rb, cr_rapFileID r, cr_rapSequenceNum r, w3))
               else Inr (loadResult, rb, cr_rapFileID r, cr_rapSequenceNum r, w2))))"


section \<open>TAPValidator\<close>

subsection \<open>The three predicate evaluators\<close>

text \<open>
  \<^verbatim>\<open>BatchContainsTaxes\<close>, \<^verbatim>\<open>BatchContainsDiscounts\<close> and
  \<^verbatim>\<open>BatchContainsPositiveCharges\<close> are the same three nested loops with a different
  test on the \<^verbatim>\<open>ChargeInformation\<close> reached; the loops are written once, with the
  test \<open>p\<close> as a parameter. Each \<^verbatim>\<open>->list.count\<close> in a loop condition dereferences
  the list pointer, with no test for null; \<^verbatim>\<open>return true\<close> leaves all loops.
\<close>

fun chargeInformationList_loop ::
  "(ChargeInformation \<Rightarrow> error + bool) \<Rightarrow> ChargeInformation list \<Rightarrow> error + bool" where
  "chargeInformationList_loop p [] = Inr False"
| "chargeInformationList_loop p (ci # cis) =
     (case p ci of
        Inl err \<Rightarrow> Inl err
      | Inr found \<Rightarrow> if found then Inr True else chargeInformationList_loop p cis)"

fun basicServiceUsedList_loop ::
  "(ChargeInformation \<Rightarrow> error + bool) \<Rightarrow> BasicServiceUsed list \<Rightarrow> error + bool" where
  "basicServiceUsedList_loop p [] = Inr False"
| "basicServiceUsedList_loop p (bs # rest) =
     (case bsu_chargeInformationList bs of
        None \<Rightarrow> Inl NullDereference
      | Some cil \<Rightarrow>
          (case chargeInformationList_loop p cil of
             Inl err \<Rightarrow> Inl err
           | Inr found \<Rightarrow> if found then Inr True else basicServiceUsedList_loop p rest))"

text \<open>The body of the outer loop: the three \<^verbatim>\<open>if (... ->present == ...)\<close> blocks.\<close>

definition callEvent_contains ::
  "(ChargeInformation \<Rightarrow> error + bool) \<Rightarrow> CallEventDetail \<Rightarrow> error + bool" where
  "callEvent_contains p ce =
     (case ce of
        CallEventDetail_mobileOriginatedCall moCall \<Rightarrow>
          ebind (deref (moc_basicServiceUsedList moCall)) (basicServiceUsedList_loop p)
      | CallEventDetail_mobileTerminatedCall mtCall \<Rightarrow>
          ebind (deref (mtc_basicServiceUsedList mtCall)) (basicServiceUsedList_loop p)
      | CallEventDetail_gprsCall gprsCall \<Rightarrow>
          ebind (deref (gprsServiceUsed gprsCall)) (\<lambda>gsu.
          ebind (deref (gsu_chargeInformationList gsu)) (chargeInformationList_loop p))
      | CallEventDetail_other \<Rightarrow> Inr False)"

fun callEventDetails_loop ::
  "(ChargeInformation \<Rightarrow> error + bool) \<Rightarrow> CallEventDetail list \<Rightarrow> error + bool" where
  "callEventDetails_loop p [] = Inr False"
| "callEventDetails_loop p (ce # rest) =
     (case callEvent_contains p ce of
        Inl err \<Rightarrow> Inl err
      | Inr found \<Rightarrow> if found then Inr True else callEventDetails_loop p rest)"

definition BatchContains ::
  "(ChargeInformation \<Rightarrow> error + bool) \<Rightarrow> TransferBatch \<Rightarrow> error + bool" where
  "BatchContains p tb = ebind (deref (callEventDetails tb)) (callEventDetails_loop p)"

definition BatchContainsTaxes :: "TransferBatch \<Rightarrow> error + bool" where
  "BatchContainsTaxes tb = BatchContains (\<lambda>ci. Inr (taxInformation ci \<noteq> None)) tb"

definition BatchContainsDiscounts :: "TransferBatch \<Rightarrow> error + bool" where
  "BatchContainsDiscounts tb = BatchContains (\<lambda>ci. Inr (discountInformation ci \<noteq> None)) tb"

fun chargeDetailList_loop :: "(OCTET_STRING \<Rightarrow> bool) \<Rightarrow> ChargeDetail list \<Rightarrow> error + bool" where
  "chargeDetailList_loop pos [] = Inr False"
| "chargeDetailList_loop pos (cd # cds) =
     (case charge cd of
        None \<Rightarrow> Inl NullDereference
      | Some c \<Rightarrow> if pos c then Inr True else chargeDetailList_loop pos cds)"

text \<open>\<^verbatim>\<open>tapPower\<close> is computed before the loop, from \<^verbatim>\<open>*accountingInfo->tapDecimalPlaces\<close>.\<close>

definition ChargeInfoContainsPositiveCharges ::
  "env \<Rightarrow> TransferBatch \<Rightarrow> ChargeInformation \<Rightarrow> error + bool" where
  "ChargeInfoContainsPositiveCharges e tb chargeInfo =
     ebind (deref (accountingInfo tb)) (\<lambda>ai.
     ebind (deref (tapDecimalPlaces ai)) (\<lambda>d.
     ebind (deref (chargeDetailList chargeInfo)) (chargeDetailList_loop (charge_gt_zero (ext e) d))))"

definition BatchContainsPositiveCharges :: "env \<Rightarrow> TransferBatch \<Rightarrow> error + bool" where
  "BatchContainsPositiveCharges e tb = BatchContains (ChargeInfoContainsPositiveCharges e tb) tb"

subsection \<open>Building and sending a RAP file\<close>

text \<open>\<^verbatim>\<open>tags[0] >> 2\<close>, stored in a \<^verbatim>\<open>long\<close>.\<close>

definition tag_number :: "asn_TYPE_descriptor_t \<Rightarrow> int" where
  "tag_number d = uint (drop_bit 2 (tags_0 d))"

text \<open>A \<^verbatim>\<open>std::string\<close> made from \<^verbatim>\<open>(char*) buf\<close> ends at the first zero byte.\<close>

definition c_str :: "OCTET_STRING \<Rightarrow> string" where
  "c_str buf = takeWhile (\<lambda>c. c \<noteq> CHR 0x00) buf"

text \<open>
  The five \<^verbatim>\<open>Create...RAPFile\<close> functions end alike: three assertions, the call of
  \<^verbatim>\<open>CreateRAPFile\<close> on a fresh \<^verbatim>\<open>ReturnBatch\<close> with \<^verbatim>\<open>m_rapFileID\<close> and
  \<^verbatim>\<open>m_rapSequenceNum\<close> as reference parameters, and the release of the structure
  (which has no effect on values). \<^verbatim>\<open>CreateAuditControlInfoRAPFile\<close> asserts
  \<^verbatim>\<open>sender\<close> twice and \<^verbatim>\<open>recipient\<close> not at all: \<open>asserts_recipient\<close> is false there.
\<close>

definition send_RAPFile ::
  "env \<Rightarrow> BatchControlInfo \<Rightarrow> bool \<Rightarrow> ReturnDetail \<Rightarrow> state \<Rightarrow> error + (int \<times> state)" where
  "send_RAPFile e bci asserts_recipient returnDetail s =
     ebind (c_assert (bci_sender bci \<noteq> None)) (\<lambda>_.
     ebind (c_assert (if asserts_recipient then bci_recipient bci \<noteq> None
                      else bci_sender bci \<noteq> None)) (\<lambda>_.
     ebind (c_assert (bci_fileAvailableTimeStamp bci \<noteq> None)) (\<lambda>_.
     ebind (deref (bci_sender bci)) (\<lambda>sender.
     ebind (deref (bci_recipient bci)) (\<lambda>recipient.
     ebind (deref (bci_fileAvailableTimeStamp bci)) (\<lambda>stamp.
     ebind (deref (localTimeStamp stamp)) (\<lambda>local.
     ebind (CreateRAPFile e calloc_ReturnBatch returnDetail (c_str sender) (c_str recipient)
              (c_str local)
              (case bci_fileTypeIndicator bci of Some f \<Rightarrow> c_str f | None \<Rightarrow> [])
              (world s)) (\<lambda>(loadRes, rb, rapFileID, rapSequenceNum, w).
     Inr (loadRes, \<lparr>m_rapFileID = rapFileID, m_rapSequenceNum = rapSequenceNum,
                    world = w\<rparr>)))))))))"

definition CreateTransferBatchRAPFile :: "env \<Rightarrow> TransferBatch \<Rightarrow> int \<Rightarrow> state \<Rightarrow> error + (int \<times> state)" where
  "CreateTransferBatchRAPFile e tb code s =
     ebind (deref (batchControlInfo tb)) (\<lambda>bci.
     ebind (deref (bci_fileSequenceNumber bci)) (\<lambda>fsn.
     let errorContext1level =
           \<lparr>pathItemId = tag_number (asn_DEF_TransferBatch (asn_defs e)), itemLevel = 1\<rparr>;
         errorDetail = \<lparr>errorCode = code, errorContext = [errorContext1level]\<rparr>;
         returnDetail = ReturnDetail_fatalReturn
           (calloc_FatalReturn
              \<lparr>fr_fileSequenceNumber := fsn,
               transferBatchError := Some \<lparr>tbe_errorDetail = [errorDetail]\<rparr>\<rparr>)
     in send_RAPFile e bci True returnDetail s))"

definition CreateBatchControlInfoRAPFile :: "env \<Rightarrow> TransferBatch \<Rightarrow> int \<Rightarrow> state \<Rightarrow> error + (int \<times> state)" where
  "CreateBatchControlInfoRAPFile e tb code s =
     ebind (deref (batchControlInfo tb)) (\<lambda>bci.
     ebind (deref (bci_fileSequenceNumber bci)) (\<lambda>fsn.
     let mirror =
           \<lparr>bci_sender = bci_sender bci,
            bci_recipient = bci_recipient bci,
            bci_fileSequenceNumber = bci_fileSequenceNumber bci,
            bci_fileCreationTimeStamp = bci_fileCreationTimeStamp bci,
            bci_transferCutOffTimeStamp = bci_transferCutOffTimeStamp bci,
            bci_fileAvailableTimeStamp = bci_fileAvailableTimeStamp bci,
            bci_specificationVersionNumber = bci_specificationVersionNumber bci,
            bci_releaseVersionNumber = bci_releaseVersionNumber bci,
            bci_fileTypeIndicator = bci_fileTypeIndicator bci,
            bci_rapFileSequenceNumber = bci_rapFileSequenceNumber bci,
            bci_operatorSpecInformation = bci_operatorSpecInformation bci\<rparr>;
         errorContext1level =
           \<lparr>pathItemId = tag_number (asn_DEF_TransferBatch (asn_defs e)), itemLevel = 1\<rparr>;
         errorContext2level =
           \<lparr>pathItemId = tag_number (asn_DEF_BatchControlInfo (asn_defs e)), itemLevel = 2\<rparr>;
         errorDetail = \<lparr>errorCode = code,
                        errorContext = [errorContext1level, errorContext2level]\<rparr>;
         returnDetail = ReturnDetail_fatalReturn
           (calloc_FatalReturn
              \<lparr>fr_fileSequenceNumber := fsn,
               batchControlError :=
                 Some \<lparr>bce_batchControlInfo = mirror, bce_errorDetail = [errorDetail]\<rparr>\<rparr>)
     in send_RAPFile e bci True returnDetail s))"

definition CreateAccountingInfoRAPFile ::
  "env \<Rightarrow> TransferBatch \<Rightarrow> int \<Rightarrow> asn_TYPE_descriptor_t option \<Rightarrow> state \<Rightarrow> error + (int \<times> state)" where
  "CreateAccountingInfoRAPFile e tb code level3item s =
     ebind (deref (batchControlInfo tb)) (\<lambda>bci.
     ebind (deref (bci_fileSequenceNumber bci)) (\<lambda>fsn.
     ebind (deref (accountingInfo tb)) (\<lambda>ai.
     let mirror =
           \<lparr>taxation = taxation ai,
            discounting = discounting ai,
            localCurrency = localCurrency ai,
            tapCurrency = tapCurrency ai,
            currencyConversionInfo = currencyConversionInfo ai,
            tapDecimalPlaces = tapDecimalPlaces ai\<rparr>;
         errorContext1level =
           \<lparr>pathItemId = tag_number (asn_DEF_TransferBatch (asn_defs e)), itemLevel = 1\<rparr>;
         errorContext2level =
           \<lparr>pathItemId = tag_number (asn_DEF_AccountingInfo (asn_defs e)), itemLevel = 2\<rparr>;
         errorContext3level =
           (case level3item of
              None \<Rightarrow> []
            | Some d \<Rightarrow> [\<lparr>pathItemId = tag_number d, itemLevel = 3\<rparr>]);
         errorDetail = \<lparr>errorCode = code,
                        errorContext = [errorContext1level, errorContext2level]
                                         @ errorContext3level\<rparr>;
         returnDetail = ReturnDetail_fatalReturn
           (calloc_FatalReturn
              \<lparr>fr_fileSequenceNumber := fsn,
               accountingInfoError :=
                 Some \<lparr>aie_accountingInfo = mirror, aie_errorDetail = [errorDetail]\<rparr>\<rparr>)
     in send_RAPFile e bci True returnDetail s)))"

definition CreateNetworkInfoRAPFile :: "env \<Rightarrow> TransferBatch \<Rightarrow> int \<Rightarrow> state \<Rightarrow> error + (int \<times> state)" where
  "CreateNetworkInfoRAPFile e tb code s =
     ebind (deref (batchControlInfo tb)) (\<lambda>bci.
     ebind (deref (bci_fileSequenceNumber bci)) (\<lambda>fsn.
     ebind (deref (networkInfo tb)) (\<lambda>ni.
     let mirror =
           \<lparr>utcTimeOffsetInfo = utcTimeOffsetInfo ni, recEntityInfo = recEntityInfo ni\<rparr>;
         errorContext1level =
           \<lparr>pathItemId = tag_number (asn_DEF_TransferBatch (asn_defs e)), itemLevel = 1\<rparr>;
         errorContext2level =
           \<lparr>pathItemId = tag_number (asn_DEF_NetworkInfo (asn_defs e)), itemLevel = 2\<rparr>;
         errorDetail = \<lparr>errorCode = code,
                        errorContext = [errorContext1level, errorContext2level]\<rparr>;
         returnDetail = ReturnDetail_fatalReturn
           (calloc_FatalReturn
              \<lparr>fr_fileSequenceNumber := fsn,
               networkInfoError :=
                 Some \<lparr>nie_networkInfo = mirror, nie_errorDetail = [errorDetail]\<rparr>\<rparr>)
     in send_RAPFile e bci True returnDetail s)))"

definition CreateAuditControlInfoRAPFile ::
  "env \<Rightarrow> TransferBatch \<Rightarrow> int \<Rightarrow> asn_TYPE_descriptor_t option \<Rightarrow> state \<Rightarrow> error + (int \<times> state)" where
  "CreateAuditControlInfoRAPFile e tb code level3item s =
     ebind (deref (batchControlInfo tb)) (\<lambda>bci.
     ebind (deref (bci_fileSequenceNumber bci)) (\<lambda>fsn.
     ebind (deref (auditControlInfo tb)) (\<lambda>aci.
     let mirror =
           \<lparr>earliestCallTimeStamp = earliestCallTimeStamp aci,
            latestCallTimeStamp = latestCallTimeStamp aci,
            totalCharge = totalCharge aci,
            totalChargeRefund = totalChargeRefund aci,
            totalTaxRefund = totalTaxRefund aci,
            totalTaxValue = totalTaxValue aci,
            totalDiscountValue = totalDiscountValue aci,
            totalDiscountRefund = totalDiscountRefund aci,
            totalAdvisedChargeValueList = totalAdvisedChargeValueList aci,
            callEventDetailsCount = callEventDetailsCount aci,
            aci_operatorSpecInformation = aci_operatorSpecInformation aci\<rparr>;
         errorContext1level =
           \<lparr>pathItemId = tag_number (asn_DEF_TransferBatch (asn_defs e)), itemLevel = 1\<rparr>;
         errorContext2level =
           \<lparr>pathItemId = tag_number (asn_DEF_AuditControlInfo (asn_defs e)), itemLevel = 2\<rparr>;
         errorContext3level =
           (case level3item of
              None \<Rightarrow> []
            | Some d \<Rightarrow> [\<lparr>pathItemId = tag_number d, itemLevel = 3\<rparr>]);
         errorDetail = \<lparr>errorCode = code,
                        errorContext = [errorContext1level, errorContext2level]
                                         @ errorContext3level\<rparr>;
         returnDetail = ReturnDetail_fatalReturn
           (calloc_FatalReturn
              \<lparr>fr_fileSequenceNumber := fsn,
               auditControlInfoError :=
                 Some \<lparr>acie_auditControlInfo = mirror, acie_errorDetail = [errorDetail]\<rparr>\<rparr>)
     in send_RAPFile e bci False returnDetail s)))"

subsection \<open>The section validators\<close>

text \<open>\<^verbatim>\<open>return (createRapRes >= 0 ? FATAL_ERROR : VALIDATION_IMPOSSIBLE)\<close>.\<close>

definition rap_result :: "error + (int \<times> state) \<Rightarrow> error + (TAPValidationResult \<times> state)" where
  "rap_result r =
     ebind r (\<lambda>(createRapRes, s).
       Inr (if createRapRes \<ge> 0 then FATAL_ERROR else VALIDATION_IMPOSSIBLE, s))"

definition ValidateBatchControlInfo :: "env \<Rightarrow> TransferBatch \<Rightarrow> state \<Rightarrow> error + (TAPValidationResult \<times> state)" where
  "ValidateBatchControlInfo e tb s =
     ebind (deref (batchControlInfo tb)) (\<lambda>bci.
       if bci_sender bci = None \<or> bci_recipient bci = None \<or> bci_fileSequenceNumber bci = None
       then Inr (VALIDATION_IMPOSSIBLE, s)
       else if bci_fileAvailableTimeStamp bci = None then
         rap_result (CreateBatchControlInfoRAPFile e tb
           (BATCH_CTRL_FILE_AVAIL_TIMESTAMP_MISSING (tap_constants e)) s)
       else if bci_specificationVersionNumber bci = None then
         rap_result (CreateBatchControlInfoRAPFile e tb
           (BATCH_CTRL_SPEC_VERSION_MISSING (tap_constants e)) s)
       else if bci_transferCutOffTimeStamp bci = None then
         rap_result (CreateBatchControlInfoRAPFile e tb
           (BATCH_CTRL_TRANSFER_CUTOFF_MISSING (tap_constants e)) s)
       else Inr (TAP_VALID, s))"

text \<open>
  The loop over \<^verbatim>\<open>currencyConversionInfo\<close>, with the \<^verbatim>\<open>std::set\<close> of the codes seen
  so far.
\<close>

fun currencyConversion_loop ::
  "env \<Rightarrow> TransferBatch \<Rightarrow> int set \<Rightarrow> CurrencyConversion list \<Rightarrow> state
     \<Rightarrow> error + (TAPValidationResult \<times> state)" where
  "currencyConversion_loop e tb exchangeRateCodes [] s = Inr (TAP_VALID, s)"
| "currencyConversion_loop e tb exchangeRateCodes (cc # rest) s =
     (case exchangeRateCode cc of
        None \<Rightarrow>
          rap_result (CreateAccountingInfoRAPFile e tb
            (CURRENCY_CONVERSION_EXRATE_CODE_MISSING (tap_constants e))
            (Some (asn_DEF_CurrencyConversionList (asn_defs e))) s)
      | Some code \<Rightarrow>
          if numberOfDecimalPlaces cc = None then
            rap_result (CreateAccountingInfoRAPFile e tb
              (CURRENCY_CONVERSION_NUM_OF_DEC_PLACES_MISSING (tap_constants e))
              (Some (asn_DEF_CurrencyConversionList (asn_defs e))) s)
          else if exchangeRate cc = None then
            rap_result (CreateAccountingInfoRAPFile e tb
              (CURRENCY_CONVERSION_EXCHANGE_RATE_MISSING (tap_constants e))
              (Some (asn_DEF_CurrencyConversionList (asn_defs e))) s)
          else if code \<in> exchangeRateCodes then
            rap_result (CreateAccountingInfoRAPFile e tb
              (CURRENCY_CONVERSION_EXRATE_CODE_DUPLICATION (tap_constants e))
              (Some (asn_DEF_CurrencyConversionList (asn_defs e))) s)
          else currencyConversion_loop e tb (insert code exchangeRateCodes) rest s)"

text \<open>
  In \<^verbatim>\<open>!taxation && BatchContainsTaxes()\<close> the evaluator runs only when the group is
  missing.
\<close>

definition ValidateAccountingInfo :: "env \<Rightarrow> TransferBatch \<Rightarrow> state \<Rightarrow> error + (TAPValidationResult \<times> state)" where
  "ValidateAccountingInfo e tb s =
     ebind (deref (accountingInfo tb)) (\<lambda>ai.
       if localCurrency ai = None then
         rap_result (CreateAccountingInfoRAPFile e tb
           (ACCOUNTING_LOCAL_CURRENCY_MISSING (tap_constants e)) None s)
       else if tapDecimalPlaces ai = None then
         rap_result (CreateAccountingInfoRAPFile e tb
           (ACCOUNTING_TAP_DECIMAL_PLACES_MISSING (tap_constants e)) None s)
       else
       ebind (if taxation ai = None then BatchContainsTaxes tb else Inr False) (\<lambda>c3.
       if c3 then
         rap_result (CreateAccountingInfoRAPFile e tb
           (ACCOUNTING_TAXATION_MISSING (tap_constants e)) None s)
       else
       ebind (if discounting ai = None then BatchContainsDiscounts tb else Inr False) (\<lambda>c4.
       if c4 then
         rap_result (CreateAccountingInfoRAPFile e tb
           (ACCOUNTING_DISCOUNTING_MISSING (tap_constants e)) None s)
       else
       ebind (if currencyConversionInfo ai = None then BatchContainsPositiveCharges e tb
              else Inr False) (\<lambda>c5.
       if c5 then
         rap_result (CreateAccountingInfoRAPFile e tb
           (ACCOUNTING_CURRENCY_CONVERSION_MISSING (tap_constants e)) None s)
       else
         (case currencyConversionInfo ai of
            None \<Rightarrow> Inr (TAP_VALID, s)
          | Some l \<Rightarrow> currencyConversion_loop e tb {} l s)))))"

definition ValidateNetworkInfo :: "env \<Rightarrow> TransferBatch \<Rightarrow> state \<Rightarrow> error + (TAPValidationResult \<times> state)" where
  "ValidateNetworkInfo e tb s =
     ebind (deref (networkInfo tb)) (\<lambda>ni.
       if utcTimeOffsetInfo ni = None then
         rap_result (CreateNetworkInfoRAPFile e tb
           (NETWORK_UTC_TIMEOFFSET_MISSING (tap_constants e)) s)
       else if recEntityInfo ni = None then
         rap_result (CreateNetworkInfoRAPFile e tb
           (NETWORK_REC_ENTITY_MISSING (tap_constants e)) s)
       else Inr (TAP_VALID, s))"

definition ValidateAuditControlInfo :: "env \<Rightarrow> TransferBatch \<Rightarrow> state \<Rightarrow> error + (TAPValidationResult \<times> state)" where
  "ValidateAuditControlInfo e tb s =
     ebind (deref (auditControlInfo tb)) (\<lambda>aci.
       if totalCharge aci = None then
         rap_result (CreateAuditControlInfoRAPFile e tb
           (AUDIT_CTRL_TOTAL_CHARGE_MISSING (tap_constants e)) None s)
       else if totalTaxValue aci = None then
         rap_result (CreateAuditControlInfoRAPFile e tb
           (AUDIT_CTRL_TOTAL_TAX_VALUE_MISSING (tap_constants e)) None s)
       else if totalDiscountValue aci = None then
         rap_result (CreateAuditControlInfoRAPFile e tb
           (AUDIT_CTRL_TOTAL_DISCOUNT_MISSING (tap_constants e)) None s)
       else
         (case callEventDetailsCount aci of
            None \<Rightarrow>
              rap_result (CreateAuditControlInfoRAPFile e tb
                (AUDIT_CTRL_CALL_COUNT_MISSING (tap_constants e)) None s)
          | Some n \<Rightarrow>
              ebind (deref (callEventDetails tb)) (\<lambda>calls.
                if n \<noteq> int (length calls) then
                  rap_result (CreateAuditControlInfoRAPFile e tb
                    (CALL_COUNT_MISMATCH (tap_constants e))
                    (Some (asn_DEF_CallEventDetailsCount (asn_defs e))) s)
                else Inr (TAP_VALID, s))))"

subsection \<open>ValidateTransferBatch, ValidateNotification, Validate\<close>

text \<open>
  Modelled from the spec: \<^verbatim>\<open>TAPValidator.h\<close>, which declares the enumeration
  \<^verbatim>\<open>TAPValidationResult\<close>, and \<^verbatim>\<open>TAP_Constants.h\<close>, which defines \<^verbatim>\<open>TL_OK\<close>, are
  missing, so the value of \<^verbatim>\<open>validationRes != TL_OK\<close> cannot be read off the code.
  The specification has the section validators run "short-circuiting on the first
  non-valid result": the test holds exactly for the results other than \<^verbatim>\<open>TAP_VALID\<close>.
\<close>

definition differs_from_TL_OK :: "TAPValidationResult \<Rightarrow> bool" where
  "differs_from_TL_OK validationRes = (validationRes \<noteq> TAP_VALID)"

definition ValidateTransferBatch :: "env \<Rightarrow> TransferBatch \<Rightarrow> state \<Rightarrow> error + (TAPValidationResult \<times> state)" where
  "ValidateTransferBatch e tb s =
     (if batchControlInfo tb = None then
        rap_result (CreateTransferBatchRAPFile e tb
          (TF_BATCH_BATCH_CONTROL_INFO_MISSING (tap_constants e)) s)
      else if accountingInfo tb = None then
        ebind (CreateTransferBatchRAPFile e tb
                 (TF_BATCH_ACCOUNTING_INFO_MISSING (tap_constants e)) s)
          (\<lambda>(createRapRes, s'). Inr (FATAL_ERROR, s'))
      else if networkInfo tb = None then
        ebind (CreateTransferBatchRAPFile e tb
                 (TF_BATCH_NETWORK_INFO_MISSING (tap_constants e)) s)
          (\<lambda>(createRapRes, s'). Inr (FATAL_ERROR, s'))
      else if auditControlInfo tb = None then
        ebind (CreateTransferBatchRAPFile e tb
                 (TF_BATCH_AUDIT_CONTROL_INFO_MISSING (tap_constants e)) s)
          (\<lambda>(createRapRes, s'). Inr (FATAL_ERROR, s'))
      else
        ebind (ValidateBatchControlInfo e tb s) (\<lambda>(validationRes, s1).
        if differs_from_TL_OK validationRes then Inr (validationRes, s1)
        else
        ebind (ValidateAccountingInfo e tb s1) (\<lambda>(validationRes, s2).
        if differs_from_TL_OK validationRes then Inr (validationRes, s2)
        else
        ebind (ValidateNetworkInfo e tb s2) (\<lambda>(validationRes, s3).
        if differs_from_TL_OK validationRes then Inr (validationRes, s3)
        else
        ebind (ValidateAuditControlInfo e tb s3) (\<lambda>(validationRes, s4).
        if differs_from_TL_OK validationRes then Inr (validationRes, s4)
        else Inr (TAP_VALID, s4))))))"

definition ValidateNotification :: "Notification \<Rightarrow> state \<Rightarrow> error + (TAPValidationResult \<times> state)" where
  "ValidateNotification n s =
     (if ntf_sender n = None \<or> ntf_recipient n = None \<or> ntf_fileSequenceNumber n = None
      then Inr (VALIDATION_IMPOSSIBLE, s)
      else Inr (TAP_VALID, s))"

text \<open>
  \<^verbatim>\<open>Validate\<close> stores the variant in \<^verbatim>\<open>m_transferBatch\<close> or \<^verbatim>\<open>m_notification\<close>; the
  functions above take it as their argument \<open>tb\<close> or \<open>n\<close> instead.
\<close>

definition Validate :: "env \<Rightarrow> DataInterChange \<Rightarrow> state \<Rightarrow> error + (TAPValidationResult \<times> state)" where
  "Validate e dataInterchange s =
     (case dataInterchange of
        DataInterChange_transferBatch tb \<Rightarrow> ValidateTransferBatch e tb s
      | DataInterChange_notification n \<Rightarrow> ValidateNotification n s
      | DataInterChange_NOTHING \<Rightarrow> Inr (VALIDATION_IMPOSSIBLE, s))"


section \<open>The statements of the specification\<close>

subsection \<open>Reading a trace\<close>

text \<open>
  The RAP batches handed to the catalogue or to the encoder in a trace, the error
  details a batch carries, and what a run added to the trace.
\<close>

fun event_raps :: "event \<Rightarrow> ReturnBatch list" where
  "event_raps (EvLoadToDB rb fileID filename status) = [rb]"
| "event_raps (EvDerEncode fullFileName rb) = [rb]"
| "event_raps (EvCatalogue recipient testData stamp) = []"
| "event_raps (EvFopen fullFileName) = []"
| "event_raps (EvFtp args) = []"

definition raps_of :: "event list \<Rightarrow> ReturnBatch list" where
  "raps_of w = concat (map event_raps w)"

definition fatalReturn_errors :: "FatalReturn \<Rightarrow> ErrorDetail list" where
  "fatalReturn_errors fr =
     (case transferBatchError fr of None \<Rightarrow> [] | Some x \<Rightarrow> tbe_errorDetail x)
     @ (case batchControlError fr of None \<Rightarrow> [] | Some x \<Rightarrow> bce_errorDetail x)
     @ (case accountingInfoError fr of None \<Rightarrow> [] | Some x \<Rightarrow> aie_errorDetail x)
     @ (case networkInfoError fr of None \<Rightarrow> [] | Some x \<Rightarrow> nie_errorDetail x)
     @ (case auditControlInfoError fr of None \<Rightarrow> [] | Some x \<Rightarrow> acie_errorDetail x)"

fun returnDetail_errors :: "ReturnDetail \<Rightarrow> ErrorDetail list" where
  "returnDetail_errors ReturnDetail_NOTHING = []"
| "returnDetail_errors (ReturnDetail_fatalReturn fr) = fatalReturn_errors fr"

definition rap_errors :: "ReturnBatch \<Rightarrow> ErrorDetail list" where
  "rap_errors rb = concat (map returnDetail_errors (returnDetails rb))"

definition emitted :: "state \<Rightarrow> state \<Rightarrow> ReturnBatch list" where
  "emitted s s' = raps_of (drop (length (world s)) (world s'))"

text \<open>The outcome of a run, the batches in its trace, and how a batch is addressed.\<close>

definition run_result :: "error + ('a \<times> state) \<Rightarrow> error + 'a" where
  "run_result r = (case r of Inl err \<Rightarrow> Inl err | Inr (x, s) \<Rightarrow> Inr x)"

definition run_raps :: "error + ('a \<times> state) \<Rightarrow> ReturnBatch list" where
  "run_raps r = (case r of Inl err \<Rightarrow> [] | Inr (x, s) \<Rightarrow> raps_of (world s))"

definition rap_addressing :: "ReturnBatch \<Rightarrow> OCTET_STRING \<times> OCTET_STRING \<times> OCTET_STRING" where
  "rap_addressing rb =
     (rap_sender (rapBatchControlInfoRap rb), rap_recipient (rapBatchControlInfoRap rb),
      rapFileSequenceNumber (rapBatchControlInfoRap rb))"

text \<open>
  A run from \<open>s\<close> to \<open>s'\<close> has sent a RAP for the transfer batch \<open>tb\<close> with the one
  error detail \<open>ed\<close>: the trace has grown, at least one batch went out, and every
  batch that went out carries exactly \<open>ed\<close>, the sender and the recipient of the TAP
  header in the fields of the same name, and the sequence number now held in
  \<^verbatim>\<open>m_rapSequenceNum\<close>.
\<close>

definition tap_sender :: "TransferBatch \<Rightarrow> OCTET_STRING option" where
  "tap_sender tb = (case batchControlInfo tb of None \<Rightarrow> None | Some bci \<Rightarrow> bci_sender bci)"

definition tap_recipient :: "TransferBatch \<Rightarrow> OCTET_STRING option" where
  "tap_recipient tb = (case batchControlInfo tb of None \<Rightarrow> None | Some bci \<Rightarrow> bci_recipient bci)"

definition rap_sent :: "TransferBatch \<Rightarrow> ErrorDetail \<Rightarrow> state \<Rightarrow> state \<Rightarrow> bool" where
  "rap_sent tb ed s s' =
     (take (length (world s)) (world s') = world s
      \<and> emitted s s' \<noteq> []
      \<and> list_all (\<lambda>rb. rap_errors rb = [ed]
                     \<and> map_option c_str (tap_sender tb)
                         = Some (rap_sender (rapBatchControlInfoRap rb))
                     \<and> map_option c_str (tap_recipient tb)
                         = Some (rap_recipient (rapBatchControlInfoRap rb))
                     \<and> rapFileSequenceNumber (rapBatchControlInfoRap rb) = m_rapSequenceNum s')
           (emitted s s'))"

subsection \<open>Error-context paths\<close>

text \<open>
  The path for a list of descriptors, outermost first: the i-th element has level i
  (from 1) and the descriptor's first tag without its two low bits.
\<close>

definition context_path :: "asn_TYPE_descriptor_t list \<Rightarrow> ErrorContext list" where
  "context_path ds =
     map (\<lambda>(i, d). \<lparr>pathItemId = uint (drop_bit 2 (tags_0 d)), itemLevel = int i\<rparr>)
         (zip [1..<Suc (length ds)] ds)"

text \<open>The descriptor paths of the specification's section 4.3.\<close>

definition section_paths :: "env \<Rightarrow> asn_TYPE_descriptor_t list list" where
  "section_paths e =
     (let d = asn_defs e in
      [[asn_DEF_TransferBatch d],
       [asn_DEF_TransferBatch d, asn_DEF_BatchControlInfo d],
       [asn_DEF_TransferBatch d, asn_DEF_AccountingInfo d],
       [asn_DEF_TransferBatch d, asn_DEF_AccountingInfo d, asn_DEF_CurrencyConversionList d],
       [asn_DEF_TransferBatch d, asn_DEF_NetworkInfo d],
       [asn_DEF_TransferBatch d, asn_DEF_AuditControlInfo d],
       [asn_DEF_TransferBatch d, asn_DEF_AuditControlInfo d, asn_DEF_CallEventDetailsCount d]])"

subsection \<open>The predicates, with a missing list read as empty\<close>

definition opt_list :: "'a list option \<Rightarrow> 'a list" where
  "opt_list l = (case l of None \<Rightarrow> [] | Some xs \<Rightarrow> xs)"

definition basicServices_charge_infos :: "BasicServiceUsed list option \<Rightarrow> ChargeInformation list" where
  "basicServices_charge_infos l =
     concat (map (\<lambda>bs. opt_list (bsu_chargeInformationList bs)) (opt_list l))"

fun call_charge_infos :: "CallEventDetail \<Rightarrow> ChargeInformation list" where
  "call_charge_infos (CallEventDetail_mobileOriginatedCall c) =
     basicServices_charge_infos (moc_basicServiceUsedList c)"
| "call_charge_infos (CallEventDetail_mobileTerminatedCall c) =
     basicServices_charge_infos (mtc_basicServiceUsedList c)"
| "call_charge_infos (CallEventDetail_gprsCall c) =
     (case gprsServiceUsed c of None \<Rightarrow> [] | Some g \<Rightarrow> opt_list (gsu_chargeInformationList g))"
| "call_charge_infos CallEventDetail_other = []"

definition batch_charge_infos :: "TransferBatch \<Rightarrow> ChargeInformation list" where
  "batch_charge_infos tb = concat (map call_charge_infos (opt_list (callEventDetails tb)))"

definition batch_has_taxes :: "TransferBatch \<Rightarrow> bool" where
  "batch_has_taxes tb = (\<exists>ci \<in> set (batch_charge_infos tb). taxInformation ci \<noteq> None)"

definition batch_has_discounts :: "TransferBatch \<Rightarrow> bool" where
  "batch_has_discounts tb = (\<exists>ci \<in> set (batch_charge_infos tb). discountInformation ci \<noteq> None)"

definition charge_info_positive :: "env \<Rightarrow> TransferBatch \<Rightarrow> ChargeInformation \<Rightarrow> bool" where
  "charge_info_positive e tb ci =
     (case accountingInfo tb of
        None \<Rightarrow> False
      | Some ai \<Rightarrow>
          (case tapDecimalPlaces ai of
             None \<Rightarrow> False
           | Some d \<Rightarrow>
               (\<exists>cd \<in> set (opt_list (chargeDetailList ci)).
                  case charge cd of None \<Rightarrow> False | Some c \<Rightarrow> charge_gt_zero (ext e) d c)))"

definition batch_has_positive_charges :: "env \<Rightarrow> TransferBatch \<Rightarrow> bool" where
  "batch_has_positive_charges e tb =
     (\<exists>ci \<in> set (batch_charge_infos tb). charge_info_positive e tb ci)"

text \<open>No pointer that the three evaluators follow is null.\<close>

definition charge_info_present :: "ChargeInformation \<Rightarrow> bool" where
  "charge_info_present ci =
     (case chargeDetailList ci of
        None \<Rightarrow> False
      | Some cds \<Rightarrow> list_all (\<lambda>cd. charge cd \<noteq> None) cds)"

definition basicServices_present :: "BasicServiceUsed list option \<Rightarrow> bool" where
  "basicServices_present l =
     (case l of
        None \<Rightarrow> False
      | Some bss \<Rightarrow> list_all (\<lambda>bs. bsu_chargeInformationList bs \<noteq> None) bss)"

fun call_lists_present :: "CallEventDetail \<Rightarrow> bool" where
  "call_lists_present (CallEventDetail_mobileOriginatedCall c) =
     basicServices_present (moc_basicServiceUsedList c)"
| "call_lists_present (CallEventDetail_mobileTerminatedCall c) =
     basicServices_present (mtc_basicServiceUsedList c)"
| "call_lists_present (CallEventDetail_gprsCall c) =
     (case gprsServiceUsed c of None \<Rightarrow> False | Some g \<Rightarrow> gsu_chargeInformationList g \<noteq> None)"
| "call_lists_present CallEventDetail_other = True"

definition lists_present :: "TransferBatch \<Rightarrow> bool" where
  "lists_present tb =
     (case callEventDetails tb of
        None \<Rightarrow> False
      | Some calls \<Rightarrow> list_all call_lists_present calls)"

definition charges_present :: "TransferBatch \<Rightarrow> bool" where
  "charges_present tb =
     ((case accountingInfo tb of None \<Rightarrow> False | Some ai \<Rightarrow> tapDecimalPlaces ai \<noteq> None)
      \<and> list_all charge_info_present (batch_charge_infos tb))"

subsection \<open>Rule order in the accounting section\<close>

text \<open>
  The rule matched by the i-th entry of the currency conversion list, if any: a
  missing code, then missing decimal places, then a missing rate, then a code that an
  earlier entry carries.
\<close>

definition cc_entry_rule :: "TAP_Constants \<Rightarrow> CurrencyConversion list \<Rightarrow> nat \<Rightarrow> int option" where
  "cc_entry_rule c l i =
     (let cc = l ! i in
      if exchangeRateCode cc = None then Some (CURRENCY_CONVERSION_EXRATE_CODE_MISSING c)
      else if numberOfDecimalPlaces cc = None
        then Some (CURRENCY_CONVERSION_NUM_OF_DEC_PLACES_MISSING c)
      else if exchangeRate cc = None then Some (CURRENCY_CONVERSION_EXCHANGE_RATE_MISSING c)
      else if exchangeRateCode cc \<in> set (map exchangeRateCode (take i l))
        then Some (CURRENCY_CONVERSION_EXRATE_CODE_DUPLICATION c)
      else None)"

definition cc_first_rule :: "TAP_Constants \<Rightarrow> CurrencyConversion list \<Rightarrow> int option" where
  "cc_first_rule c l =
     (case find (\<lambda>i. cc_entry_rule c l i \<noteq> None) [0..<length l] of
        None \<Rightarrow> None
      | Some i \<Rightarrow> cc_entry_rule c l i)"

text \<open>
  The first accounting rule that matches, as the error code and the descriptor path
  of its error context.
\<close>

definition accounting_first_rule ::
  "env \<Rightarrow> TransferBatch \<Rightarrow> AccountingInfo \<Rightarrow> (int \<times> asn_TYPE_descriptor_t list) option" where
  "accounting_first_rule e tb ai =
     (let c = tap_constants e; d = asn_defs e;
          two = [asn_DEF_TransferBatch d, asn_DEF_AccountingInfo d];
          three = two @ [asn_DEF_CurrencyConversionList d] in
      if localCurrency ai = None then Some (ACCOUNTING_LOCAL_CURRENCY_MISSING c, two)
      else if tapDecimalPlaces ai = None then Some (ACCOUNTING_TAP_DECIMAL_PLACES_MISSING c, two)
      else if taxation ai = None \<and> batch_has_taxes tb
        then Some (ACCOUNTING_TAXATION_MISSING c, two)
      else if discounting ai = None \<and> batch_has_discounts tb
        then Some (ACCOUNTING_DISCOUNTING_MISSING c, two)
      else if currencyConversionInfo ai = None \<and> batch_has_positive_charges e tb
        then Some (ACCOUNTING_CURRENCY_CONVERSION_MISSING c, two)
      else (case currencyConversionInfo ai of
              None \<Rightarrow> None
            | Some l \<Rightarrow> map_option (\<lambda>code. (code, three)) (cc_first_rule c l)))"


subsection \<open>A TAP file that satisfies every rule\<close>

definition batchControl_rules :: "BatchControlInfo \<Rightarrow> bool" where
  "batchControl_rules bci =
     (bci_sender bci \<noteq> None \<and> bci_recipient bci \<noteq> None \<and> bci_fileSequenceNumber bci \<noteq> None
      \<and> bci_fileAvailableTimeStamp bci \<noteq> None \<and> bci_specificationVersionNumber bci \<noteq> None
      \<and> bci_transferCutOffTimeStamp bci \<noteq> None)"

definition cc_entries_rules :: "CurrencyConversion list \<Rightarrow> bool" where
  "cc_entries_rules l =
     (list_all (\<lambda>cc. exchangeRateCode cc \<noteq> None \<and> numberOfDecimalPlaces cc \<noteq> None
                    \<and> exchangeRate cc \<noteq> None) l
      \<and> distinct (map exchangeRateCode l))"

definition accounting_rules :: "env \<Rightarrow> TransferBatch \<Rightarrow> AccountingInfo \<Rightarrow> bool" where
  "accounting_rules e tb ai =
     (localCurrency ai \<noteq> None \<and> tapDecimalPlaces ai \<noteq> None
      \<and> (taxation ai \<noteq> None \<or> \<not> batch_has_taxes tb)
      \<and> (discounting ai \<noteq> None \<or> \<not> batch_has_discounts tb)
      \<and> (currencyConversionInfo ai \<noteq> None \<or> \<not> batch_has_positive_charges e tb)
      \<and> cc_entries_rules (opt_list (currencyConversionInfo ai)))"

definition network_rules :: "NetworkInfo \<Rightarrow> bool" where
  "network_rules ni = (utcTimeOffsetInfo ni \<noteq> None \<and> recEntityInfo ni \<noteq> None)"

definition audit_rules :: "TransferBatch \<Rightarrow> AuditControlInfo \<Rightarrow> bool" where
  "audit_rules tb aci =
     (totalCharge aci \<noteq> None \<and> totalTaxValue aci \<noteq> None \<and> totalDiscountValue aci \<noteq> None
      \<and> callEventDetailsCount aci = Some (int (length (opt_list (callEventDetails tb)))))"

definition transferBatch_rules :: "env \<Rightarrow> TransferBatch \<Rightarrow> bool" where
  "transferBatch_rules e tb =
     ((case batchControlInfo tb of None \<Rightarrow> False | Some bci \<Rightarrow> batchControl_rules bci)
      \<and> (case accountingInfo tb of None \<Rightarrow> False | Some ai \<Rightarrow> accounting_rules e tb ai)
      \<and> (case networkInfo tb of None \<Rightarrow> False | Some ni \<Rightarrow> network_rules ni)
      \<and> (case auditControlInfo tb of None \<Rightarrow> False | Some aci \<Rightarrow> audit_rules tb aci))"

definition notification_rules :: "Notification \<Rightarrow> bool" where
  "notification_rules n =
     (ntf_sender n \<noteq> None \<and> ntf_recipient n \<noteq> None \<and> ntf_fileSequenceNumber n \<noteq> None)"

fun tap_rules :: "env \<Rightarrow> DataInterChange \<Rightarrow> bool" where
  "tap_rules e (DataInterChange_transferBatch tb) = transferBatch_rules e tb"
| "tap_rules e (DataInterChange_notification n) = notification_rules n"
| "tap_rules e DataInterChange_NOTHING = False"

text \<open>
  The pointers that a run on an input satisfying the rules follows without a test: the
  call event list (the audit section reads its count); every list on the way to the
  charge information, when one of the three groups taxation, discounting and currency
  conversion is missing, since then an evaluator walks through all of them; and every
  charge detail list and charge, when the currency conversion group is missing.
\<close>

fun pointers_present :: "DataInterChange \<Rightarrow> bool" where
  "pointers_present (DataInterChange_transferBatch tb) =
     (callEventDetails tb \<noteq> None
      \<and> (case accountingInfo tb of
            None \<Rightarrow> True
          | Some ai \<Rightarrow>
              (if taxation ai = None \<or> discounting ai = None \<or> currencyConversionInfo ai = None
               then lists_present tb else True)
              \<and> (if currencyConversionInfo ai = None then charges_present tb else True)))"
| "pointers_present (DataInterChange_notification n) = True"
| "pointers_present DataInterChange_NOTHING = True"

subsection \<open>Amount serialisation\<close>

text \<open>
  The digits of a number in base 256, most significant first, produced from the least
  significant end until nothing remains; the unsigned and the two's-complement value
  of a big-endian octet string; and the zero octet put in front of a leading octet
  whose high bit is set.
\<close>

function be_digits :: "nat \<Rightarrow> 8 word list" where
  "be_digits n =
     (if n div 256 = 0 then [of_nat n] else be_digits (n div 256) @ [of_nat (n mod 256)])"
  by pat_completeness auto
termination
  by (relation "measure id") auto

definition be_val :: "8 word list \<Rightarrow> int" where
  "be_val bs = foldl (\<lambda>a c. a * 256 + uint c) 0 bs"

fun be_decode :: "8 word list \<Rightarrow> int" where
  "be_decode [] = 0"
| "be_decode (b # bs) = foldl (\<lambda>a c. a * 256 + uint c) (sint b) bs"

definition sign_pad :: "8 word list \<Rightarrow> 8 word list" where
  "sign_pad ds = (case ds of [] \<Rightarrow> [] | d # rest \<Rightarrow> if 0x80 \<le> d then 0 # ds else ds)"


section \<open>Example inputs\<close>

text \<open>
  Sample values for the constants and descriptors, a catalogue that answers every call,
  a database, file system and encoder that succeed, no FTP server configured, and a
  charge read as positive unless it is empty or the single octet zero.
\<close>

definition ex_constants :: TAP_Constants where
  "ex_constants =
     \<lparr>TL_OK = 0, TL_FILEERROR = - 3, TL_DECODEERROR = - 4, OUTFILE_CREATED_AND_SENT = 2,
      TF_BATCH_BATCH_CONTROL_INFO_MISSING = 101,
      TF_BATCH_ACCOUNTING_INFO_MISSING = 102,
      TF_BATCH_NETWORK_INFO_MISSING = 103,
      TF_BATCH_AUDIT_CONTROL_INFO_MISSING = 104,
      BATCH_CTRL_FILE_AVAIL_TIMESTAMP_MISSING = 105,
      BATCH_CTRL_SPEC_VERSION_MISSING = 106,
      BATCH_CTRL_TRANSFER_CUTOFF_MISSING = 107,
      ACCOUNTING_LOCAL_CURRENCY_MISSING = 108,
      ACCOUNTING_TAP_DECIMAL_PLACES_MISSING = 109,
      ACCOUNTING_TAXATION_MISSING = 110,
      ACCOUNTING_DISCOUNTING_MISSING = 111,
      ACCOUNTING_CURRENCY_CONVERSION_MISSING = 112,
      CURRENCY_CONVERSION_EXRATE_CODE_MISSING = 113,
      CURRENCY_CONVERSION_NUM_OF_DEC_PLACES_MISSING = 114,
      CURRENCY_CONVERSION_EXCHANGE_RATE_MISSING = 115,
      CURRENCY_CONVERSION_EXRATE_CODE_DUPLICATION = 116,
      NETWORK_UTC_TIMEOFFSET_MISSING = 117,
      NETWORK_REC_ENTITY_MISSING = 118,
      AUDIT_CTRL_TOTAL_CHARGE_MISSING = 119,
      AUDIT_CTRL_TOTAL_TAX_VALUE_MISSING = 120,
      AUDIT_CTRL_TOTAL_DISCOUNT_MISSING = 121,
      AUDIT_CTRL_CALL_COUNT_MISSING = 122,
      CALL_COUNT_MISMATCH = 123\<rparr>"

definition ex_descriptors :: asn_descriptors where
  "ex_descriptors =
     \<lparr>asn_DEF_TransferBatch = \<lparr>tags_0 = 5\<rparr>,
      asn_DEF_BatchControlInfo = \<lparr>tags_0 = 17\<rparr>,
      asn_DEF_AccountingInfo = \<lparr>tags_0 = 21\<rparr>,
      asn_DEF_NetworkInfo = \<lparr>tags_0 = 25\<rparr>,
      asn_DEF_AuditControlInfo = \<lparr>tags_0 = 61\<rparr>,
      asn_DEF_CurrencyConversionList = \<lparr>tags_0 = 321\<rparr>,
      asn_DEF_CallEventDetailsCount = \<lparr>tags_0 = 173\<rparr>\<rparr>"

definition ex_reply :: CatalogueReply where
  "ex_reply =
     \<lparr>cr_filename = ''RCBBBBBAAAAA00007'', cr_rapSequenceNum = ''00007'',
      cr_mobileNetworkID = 1, cr_roamingHubID = 1, cr_roamingHubName = ''HUB'',
      cr_timeStamp = ''20240102030405'', cr_utcOffset = ''+0300'',
      cr_tapVersion = 3, cr_tapRelease = 12, cr_rapVersion = 1, cr_rapRelease = 5,
      cr_tapDecimalPlaces = 2, cr_rapFileID = 42\<rparr>"

definition ex_externals :: externals where
  "ex_externals =
     \<lparr>CreateRAPFileByTAPLoader = (\<lambda>recipient testData stamp. Inr ex_reply),
      LoadReturnBatchToDB = (\<lambda>rb fileID filename status. 0),
      fopen_wb = (\<lambda>name. True),
      der_encode = (\<lambda>rb. 100),
      GetOutputDirectory = ''out'',
      GetFTPSetting = (\<lambda>hub. \<lparr>ftpServer = [], ftpUsername = [], ftpPassword = [],
                                 ftpPort = [], ftpDirectory = []\<rparr>),
      ncftp_main = (\<lambda>args. 0),
      charge_gt_zero = (\<lambda>d c. c \<noteq> [] \<and> c \<noteq> [CHR 0x00])\<rparr>"

definition ex_env :: env where
  "ex_env = \<lparr>tap_constants = ex_constants, asn_defs = ex_descriptors, ext = ex_externals\<rparr>"

text \<open>The same surroundings with a database that refuses the RAP batch.\<close>

definition ex_env_db_down :: env where
  "ex_env_db_down =
     ex_env\<lparr>ext := ex_externals\<lparr>LoadReturnBatchToDB := (\<lambda>rb fileID filename status. - 1)\<rparr>\<rparr>"

text \<open>
  A transfer batch that breaks no rule: one GPRS call with a single charge of zero, no
  taxes, no discounts, two currency conversion entries with different codes.
\<close>

definition ex_stamp :: DateTimeLong where
  "ex_stamp = \<lparr>localTimeStamp = Some ''20240101120000'', utcTimeOffset = Some ''+0100''\<rparr>"

definition ex_bci :: BatchControlInfo where
  "ex_bci =
     \<lparr>bci_sender = Some ''AAAAA'', bci_recipient = Some ''BBBBB'',
      bci_fileSequenceNumber = Some ''00001'',
      bci_fileCreationTimeStamp = Some ex_stamp,
      bci_transferCutOffTimeStamp = Some ex_stamp,
      bci_fileAvailableTimeStamp = Some ex_stamp,
      bci_specificationVersionNumber = Some 3,
      bci_releaseVersionNumber = Some 12,
      bci_fileTypeIndicator = None,
      bci_rapFileSequenceNumber = None,
      bci_operatorSpecInformation = None\<rparr>"

definition ex_cc :: "int \<Rightarrow> CurrencyConversion" where
  "ex_cc code = \<lparr>exchangeRateCode = Some code, numberOfDecimalPlaces = Some 5,
                 exchangeRate = Some 10000\<rparr>"

definition ex_ai :: AccountingInfo where
  "ex_ai =
     \<lparr>taxation = None, discounting = None, localCurrency = Some ''EUR'',
      tapCurrency = None, currencyConversionInfo = Some [ex_cc 1, ex_cc 2],
      tapDecimalPlaces = Some 2\<rparr>"

definition ex_ni :: NetworkInfo where
  "ex_ni = \<lparr>utcTimeOffsetInfo = Some [''+0100''], recEntityInfo = Some [''GGSN1'']\<rparr>"

definition ex_aci :: AuditControlInfo where
  "ex_aci =
     \<lparr>earliestCallTimeStamp = Some ex_stamp, latestCallTimeStamp = Some ex_stamp,
      totalCharge = Some [CHR 0x00], totalChargeRefund = None, totalTaxRefund = None,
      totalTaxValue = Some [CHR 0x00], totalDiscountValue = Some [CHR 0x00],
      totalDiscountRefund = None, totalAdvisedChargeValueList = None,
      callEventDetailsCount = Some 1, aci_operatorSpecInformation = None\<rparr>"

definition ex_charge_info :: ChargeInformation where
  "ex_charge_info =
     \<lparr>taxInformation = None, discountInformation = None,
      chargeDetailList = Some [\<lparr>charge = Some [CHR 0x00]\<rparr>]\<rparr>"

definition ex_gprs :: CallEventDetail where
  "ex_gprs = CallEventDetail_gprsCall
     \<lparr>gprsServiceUsed = Some \<lparr>gsu_chargeInformationList = Some [ex_charge_info]\<rparr>\<rparr>"

definition ex_tb :: TransferBatch where
  "ex_tb =
     \<lparr>batchControlInfo = Some ex_bci, accountingInfo = Some ex_ai, networkInfo = Some ex_ni,
      callEventDetails = Some [ex_gprs], auditControlInfo = Some ex_aci\<rparr>"

text \<open>The same batch without its accounting section.\<close>

definition ex_tb_no_accounting :: TransferBatch where
  "ex_tb_no_accounting = ex_tb\<lparr>accountingInfo := None\<rparr>"

text \<open>Without its accounting section and without a sender.\<close>

definition ex_tb_no_sender :: TransferBatch where
  "ex_tb_no_sender =
     ex_tb\<lparr>batchControlInfo := Some (ex_bci\<lparr>bci_sender := None\<rparr>), accountingInfo := None\<rparr>"




text \<open>With one mobile originated call that has no list of basic services.\<close>

definition ex_tb_mo :: TransferBatch where
  "ex_tb_mo =
     ex_tb\<lparr>callEventDetails :=
             Some [CallEventDetail_mobileOriginatedCall \<lparr>moc_basicServiceUsedList = None\<rparr>]\<rparr>"

text \<open>
  The same call, in a batch that has its taxation, discounting and currency conversion
  groups.
\<close>

definition ex_tb_groups :: TransferBatch where
  "ex_tb_groups =
     ex_tb_mo\<lparr>accountingInfo :=
                 Some (ex_ai\<lparr>taxation := Some [''VAT''], discounting := Some [''D1'']\<rparr>)\<rparr>"

text \<open>With the three groups, no list of call events and a call count of 0.\<close>

definition ex_tb_groups_no_calls :: TransferBatch where
  "ex_tb_groups_no_calls =
     ex_tb_groups\<lparr>callEventDetails := None,
                    auditControlInfo := Some (ex_aci\<lparr>callEventDetailsCount := Some 0\<rparr>)\<rparr>"

text \<open>
  With taxation and discounting but without currency conversion, and one GPRS call
  whose charge information has no list of charge details.
\<close>

definition ex_tb_no_details :: TransferBatch where
  "ex_tb_no_details =
     ex_tb\<lparr>accountingInfo :=
             Some (ex_ai\<lparr>taxation := Some [''VAT''], discounting := Some [''D1''],
                         currencyConversionInfo := None\<rparr>),
           callEventDetails :=
             Some [CallEventDetail_gprsCall
                     \<lparr>gprsServiceUsed =
                        Some \<lparr>gsu_chargeInformationList =
                                Some [ex_charge_info\<lparr>chargeDetailList := None\<rparr>]\<rparr>\<rparr>]\<rparr>"

definition ex_notification :: Notification where
  "ex_notification =
     \<lparr>ntf_sender = Some ''AAAAA'', ntf_recipient = Some ''BBBBB'',
      ntf_fileSequenceNumber = Some ''00001''\<rparr>"


section \<open>Proofs: failures, traces and paths\<close>

lemma ebind_Inl [simp]: "ebind (Inl err) f = Inl err"
  by (simp add: ebind_def)

lemma ebind_Inr [simp]: "ebind (Inr x) f = f x"
  by (simp add: ebind_def)

lemma ebind_eq_Inr: "(ebind m f = Inr y) = (\<exists>x. m = Inr x \<and> f x = Inr y)"
  by (cases m) simp_all

lemma deref_None [simp]: "deref None = Inl NullDereference"
  by (simp add: deref_def)

lemma deref_Some [simp]: "deref (Some x) = Inr x"
  by (simp add: deref_def)

lemma deref_eq_Inr [simp]: "(deref p = Inr x) = (p = Some x)"
  by (cases p) simp_all

lemma c_assert_True [simp]: "c_assert True = Inr ()"
  by (simp add: c_assert_def)

lemma c_assert_False [simp]: "c_assert False = Inl AssertionFailed"
  by (simp add: c_assert_def)

lemma c_assert_eq_Inr [simp]: "(c_assert b = Inr u) = b"
  by (cases b) simp_all

lemma fromInt64_fill_zero: "fromInt64_fill 7 0 buf = (7, 0, buf[7 := 0])"
proof -
  have "(7::nat) = Suc 6" by simp
  then show ?thesis by (simp only: fromInt64_fill.simps) simp
qed

lemma last_cell: "drop 7 ((replicate 8 x)[7 := y]) = [y]" and "(replicate 8 x)[7 := y] ! 7 = y"
  by (simp_all add: eval_nat_numeral)

lemma OctetString_fromInt64_zero: "OctetString_fromInt64 0 = Inr ([0], 1)"
  by (simp add: OctetString_fromInt64_def fromInt64_fill_zero last_cell)

lemma raps_of_append [simp]: "raps_of (a @ b) = raps_of a @ raps_of b"
  by (simp add: raps_of_def)

lemma raps_of_Nil [simp]: "raps_of [] = []"
  by (simp add: raps_of_def)

lemma raps_of_Cons [simp]: "raps_of (x # xs) = event_raps x @ raps_of xs"
  by (simp add: raps_of_def)

lemma context_path_1: "context_path [a] = [\<lparr>pathItemId = tag_number a, itemLevel = 1\<rparr>]"
  by (simp add: context_path_def tag_number_def upt_rec)

lemma context_path_2:
  "context_path [a, b] =
     [\<lparr>pathItemId = tag_number a, itemLevel = 1\<rparr>, \<lparr>pathItemId = tag_number b, itemLevel = 2\<rparr>]"
  by (simp add: context_path_def tag_number_def upt_rec)

lemma context_path_3:
  "context_path [a, b, c] =
     [\<lparr>pathItemId = tag_number a, itemLevel = 1\<rparr>, \<lparr>pathItemId = tag_number b, itemLevel = 2\<rparr>,
      \<lparr>pathItemId = tag_number c, itemLevel = 3\<rparr>]"
  by (simp add: context_path_def tag_number_def upt_rec)

lemma EncodeAndUpload_trace:
  assumes "EncodeAndUpload e rb filename hub w = (res, w')"
  shows "\<exists>new. w' = w @ new \<and> set (raps_of new) \<subseteq> {rb}"
  using assms
  by (auto simp add: EncodeAndUpload_def UploadFileToFtp_def Let_def split: if_splits)

lemma CreateRAPFile_Inr:
  assumes "CreateRAPFile e rb0 rd sender recipient stamp fti w = Inr (res, rb, fid, seq, w')"
  shows "\<exists>r new. CreateRAPFileByTAPLoader (ext e) recipient (if length fti > 0 then 1 else 0) stamp = Inr r
           \<and> w' = w @ new \<and> raps_of new \<noteq> [] \<and> set (raps_of new) = {rb}
           \<and> returnDetails rb = returnDetails rb0 @ [rd]
           \<and> rap_sender (rapBatchControlInfoRap rb) = sender
           \<and> rap_recipient (rapBatchControlInfoRap rb) = recipient
           \<and> rapFileSequenceNumber (rapBatchControlInfoRap rb) = cr_rapSequenceNum r
           \<and> seq = cr_rapSequenceNum r \<and> fid = cr_rapFileID r"
proof -
  from assms obtain r where
    r: "CreateRAPFileByTAPLoader (ext e) recipient (if length fti > 0 then 1 else 0) stamp = Inr r"
    by (auto simp add: CreateRAPFile_def Let_def ebind_eq_Inr)
  define w2 where "w2 = w @ [EvCatalogue recipient (if length fti > 0 then 1 else 0) stamp,
     EvLoadToDB rb (cr_rapFileID r) (cr_filename r) (OUTFILE_CREATED_AND_SENT (tap_constants e))]"
  from assms r have
    rb: "returnDetails rb = returnDetails rb0 @ [rd]
         \<and> rap_sender (rapBatchControlInfoRap rb) = sender
         \<and> rap_recipient (rapBatchControlInfoRap rb) = recipient
         \<and> rapFileSequenceNumber (rapBatchControlInfoRap rb) = cr_rapSequenceNum r
         \<and> seq = cr_rapSequenceNum r \<and> fid = cr_rapFileID r"
    and w': "w' = w2 \<or> (\<exists>x. EncodeAndUpload e rb (cr_filename r) (cr_roamingHubName r) w2 = (x, w'))"
    by (auto simp add: CreateRAPFile_def Let_def OctetString_fromInt64_zero w2_def
          split: if_splits prod.splits)
  from w' have "\<exists>new. w' = w @ new \<and> raps_of new \<noteq> [] \<and> set (raps_of new) = {rb}"
  proof
    assume "w' = w2"
    then show ?thesis by (simp add: w2_def)
  next
    assume "\<exists>x. EncodeAndUpload e rb (cr_filename r) (cr_roamingHubName r) w2 = (x, w')"
    then obtain x where "EncodeAndUpload e rb (cr_filename r) (cr_roamingHubName r) w2 = (x, w')" ..
    from EncodeAndUpload_trace [OF this] obtain new where
      "w' = w2 @ new" and "set (raps_of new) \<subseteq> {rb}" by blast
    then show ?thesis by (auto simp add: w2_def)
  qed
  with r rb show ?thesis by blast
qed

lemma send_RAPFile_Inr:
  assumes "send_RAPFile e bci ar rd s = Inr (res, s')"
  shows "\<exists>rb new sender recipient.
           bci_sender bci = Some sender \<and> bci_recipient bci = Some recipient
           \<and> world s' = world s @ new \<and> raps_of new \<noteq> [] \<and> set (raps_of new) = {rb}
           \<and> returnDetails rb = [rd]
           \<and> rap_sender (rapBatchControlInfoRap rb) = c_str sender
           \<and> rap_recipient (rapBatchControlInfoRap rb) = c_str recipient
           \<and> rapFileSequenceNumber (rapBatchControlInfoRap rb) = m_rapSequenceNum s'"
  using assms
  by (auto simp add: send_RAPFile_def ebind_eq_Inr calloc_ReturnBatch_def
        dest!: CreateRAPFile_Inr)


lemma rap_sentI:
  assumes "world s' = world s @ new" and "raps_of new \<noteq> []" and "set (raps_of new) = {rb}"
    and "rap_errors rb = [ed]"
    and "map_option c_str (tap_sender tb) = Some (rap_sender (rapBatchControlInfoRap rb))"
    and "map_option c_str (tap_recipient tb) = Some (rap_recipient (rapBatchControlInfoRap rb))"
    and "rapFileSequenceNumber (rapBatchControlInfoRap rb) = m_rapSequenceNum s'"
  shows "rap_sent tb ed s s'"
  using assms by (simp add: rap_sent_def emitted_def list_all_iff)

lemma rap_sent_trace: "rap_sent tb ed s s' \<Longrightarrow> \<exists>new. world s' = world s @ new"
  by (metis append_take_drop_id rap_sent_def)

lemma CreateTransferBatchRAPFile_Inr:
  assumes "CreateTransferBatchRAPFile e tb code s = Inr (res, s')"
  shows "rap_sent tb \<lparr>errorCode = code,
                      errorContext = context_path [asn_DEF_TransferBatch (asn_defs e)]\<rparr> s s'"
  using assms
  by (auto simp add: CreateTransferBatchRAPFile_def ebind_eq_Inr Let_def context_path_1
        rap_errors_def fatalReturn_errors_def calloc_FatalReturn_def tap_sender_def
        tap_recipient_def
        dest!: send_RAPFile_Inr intro!: rap_sentI)

lemma CreateBatchControlInfoRAPFile_Inr:
  assumes "CreateBatchControlInfoRAPFile e tb code s = Inr (res, s')"
  shows "rap_sent tb \<lparr>errorCode = code,
                      errorContext = context_path [asn_DEF_TransferBatch (asn_defs e),
                                                   asn_DEF_BatchControlInfo (asn_defs e)]\<rparr> s s'"
  using assms
  by (auto simp add: CreateBatchControlInfoRAPFile_def ebind_eq_Inr Let_def context_path_2
        rap_errors_def fatalReturn_errors_def calloc_FatalReturn_def tap_sender_def
        tap_recipient_def
        dest!: send_RAPFile_Inr intro!: rap_sentI)

lemma CreateAccountingInfoRAPFile_Inr:
  assumes "CreateAccountingInfoRAPFile e tb code l3 s = Inr (res, s')"
  shows "rap_sent tb \<lparr>errorCode = code,
                      errorContext = context_path
                        ([asn_DEF_TransferBatch (asn_defs e), asn_DEF_AccountingInfo (asn_defs e)]
                         @ (case l3 of None \<Rightarrow> [] | Some d \<Rightarrow> [d]))\<rparr> s s'"
  using assms
  by (auto simp add: CreateAccountingInfoRAPFile_def ebind_eq_Inr Let_def context_path_2
        context_path_3 rap_errors_def fatalReturn_errors_def calloc_FatalReturn_def
        tap_sender_def tap_recipient_def
        split: option.splits
        dest!: send_RAPFile_Inr intro!: rap_sentI)

lemma CreateNetworkInfoRAPFile_Inr:
  assumes "CreateNetworkInfoRAPFile e tb code s = Inr (res, s')"
  shows "rap_sent tb \<lparr>errorCode = code,
                      errorContext = context_path [asn_DEF_TransferBatch (asn_defs e),
                                                   asn_DEF_NetworkInfo (asn_defs e)]\<rparr> s s'"
  using assms
  by (auto simp add: CreateNetworkInfoRAPFile_def ebind_eq_Inr Let_def context_path_2
        rap_errors_def fatalReturn_errors_def calloc_FatalReturn_def tap_sender_def
        tap_recipient_def
        dest!: send_RAPFile_Inr intro!: rap_sentI)

lemma CreateAuditControlInfoRAPFile_Inr:
  assumes "CreateAuditControlInfoRAPFile e tb code l3 s = Inr (res, s')"
  shows "rap_sent tb \<lparr>errorCode = code,
                      errorContext = context_path
                        ([asn_DEF_TransferBatch (asn_defs e), asn_DEF_AuditControlInfo (asn_defs e)]
                         @ (case l3 of None \<Rightarrow> [] | Some d \<Rightarrow> [d]))\<rparr> s s'"
  using assms
  by (auto simp add: CreateAuditControlInfoRAPFile_def ebind_eq_Inr Let_def context_path_2
        context_path_3 rap_errors_def fatalReturn_errors_def calloc_FatalReturn_def
        tap_sender_def tap_recipient_def
        split: option.splits
        dest!: send_RAPFile_Inr intro!: rap_sentI)

lemma rap_result_Inr:
  "(rap_result m = Inr (r, s')) =
     (\<exists>res. m = Inr (res, s') \<and> r = (if res \<ge> 0 then FATAL_ERROR else VALIDATION_IMPOSSIBLE))"
  by (auto simp add: rap_result_def ebind_eq_Inr)

section \<open>Proofs: the predicate evaluators\<close>

lemma opt_list_simps [simp]: "opt_list None = []" "opt_list (Some xs) = xs"
  by (simp_all add: opt_list_def)

text \<open>
  If an evaluator returns true, some charge information it reached passed the test; if
  it returns false, every charge information of the batch failed it.
\<close>

lemma chargeInformationList_loop_Inr:
  "chargeInformationList_loop p cis = Inr b \<Longrightarrow>
     (if b then \<exists>ci \<in> set cis. p ci = Inr True else \<forall>ci \<in> set cis. p ci = Inr False)"
  by (induction cis) (auto split: sum.splits if_splits)

lemma basicServiceUsedList_loop_Inr:
  "basicServiceUsedList_loop p bss = Inr b \<Longrightarrow>
     (if b then \<exists>ci \<in> set (basicServices_charge_infos (Some bss)). p ci = Inr True
      else \<forall>ci \<in> set (basicServices_charge_infos (Some bss)). p ci = Inr False)"
proof (induction bss)
  case Nil
  then show ?case by (simp add: basicServices_charge_infos_def)
next
  case (Cons bs bss)
  from Cons.prems obtain cil where cil: "bsu_chargeInformationList bs = Some cil"
    by (auto split: option.splits)
  from Cons.prems cil obtain found where
    found: "chargeInformationList_loop p cil = Inr found"
    and rest: "if found then b else basicServiceUsedList_loop p bss = Inr b"
    by (auto split: sum.splits if_splits)
  have infos: "set (basicServices_charge_infos (Some (bs # bss)))
                 = set cil \<union> set (basicServices_charge_infos (Some bss))"
    by (simp add: basicServices_charge_infos_def cil)
  show ?case
  proof (cases found)
    case True
    with rest have b by simp
    moreover from chargeInformationList_loop_Inr [OF found] True
    have "\<exists>ci \<in> set cil. p ci = Inr True" by simp
    ultimately show ?thesis unfolding infos by auto
  next
    case False
    with rest have "basicServiceUsedList_loop p bss = Inr b" by simp
    from Cons.IH [OF this] chargeInformationList_loop_Inr [OF found] False
    show ?thesis unfolding infos by (auto split: if_splits)
  qed
qed

lemma callEvent_contains_Inr:
  assumes "callEvent_contains p ce = Inr b"
  shows "if b then \<exists>ci \<in> set (call_charge_infos ce). p ci = Inr True
         else \<forall>ci \<in> set (call_charge_infos ce). p ci = Inr False"
proof (cases ce)
  case (CallEventDetail_mobileOriginatedCall c)
  with assms obtain bss where "moc_basicServiceUsedList c = Some bss"
    and "basicServiceUsedList_loop p bss = Inr b"
    by (auto simp add: callEvent_contains_def ebind_eq_Inr)
  with basicServiceUsedList_loop_Inr [of p bss b] CallEventDetail_mobileOriginatedCall
  show ?thesis by simp
next
  case (CallEventDetail_mobileTerminatedCall c)
  with assms obtain bss where "mtc_basicServiceUsedList c = Some bss"
    and "basicServiceUsedList_loop p bss = Inr b"
    by (auto simp add: callEvent_contains_def ebind_eq_Inr)
  with basicServiceUsedList_loop_Inr [of p bss b] CallEventDetail_mobileTerminatedCall
  show ?thesis by simp
next
  case (CallEventDetail_gprsCall c)
  with assms obtain g cil where "gprsServiceUsed c = Some g"
    and "gsu_chargeInformationList g = Some cil"
    and "chargeInformationList_loop p cil = Inr b"
    by (auto simp add: callEvent_contains_def ebind_eq_Inr)
  with chargeInformationList_loop_Inr [of p cil b] CallEventDetail_gprsCall
  show ?thesis by simp
next
  case CallEventDetail_other
  with assms show ?thesis by (auto simp add: callEvent_contains_def)
qed

lemma callEventDetails_loop_Inr:
  "callEventDetails_loop p ces = Inr b \<Longrightarrow>
     (if b then \<exists>ci \<in> set (concat (map call_charge_infos ces)). p ci = Inr True
      else \<forall>ci \<in> set (concat (map call_charge_infos ces)). p ci = Inr False)"
proof (induction ces)
  case Nil
  then show ?case by simp
next
  case (Cons ce ces)
  from Cons.prems obtain found where
    found: "callEvent_contains p ce = Inr found"
    and rest: "if found then b else callEventDetails_loop p ces = Inr b"
    by (auto split: sum.splits if_splits)
  show ?case
  proof (cases found)
    case True
    with rest have b by simp
    moreover from callEvent_contains_Inr [OF found] True
    have "\<exists>ci \<in> set (call_charge_infos ce). p ci = Inr True" by simp
    ultimately show ?thesis by auto
  next
    case False
    with rest have "callEventDetails_loop p ces = Inr b" by simp
    from Cons.IH [OF this] callEvent_contains_Inr [OF found] False
    show ?thesis by (auto split: if_splits)
  qed
qed

lemma BatchContains_Inr:
  assumes "\<And>ci v. p ci = Inr v \<Longrightarrow> v = q ci"
    and "BatchContains p tb = Inr b"
  shows "b = (\<exists>ci \<in> set (batch_charge_infos tb). q ci)"
proof -
  from assms(2) obtain ces where ces: "callEventDetails tb = Some ces"
    and loop: "callEventDetails_loop p ces = Inr b"
    by (auto simp add: BatchContains_def ebind_eq_Inr)
  have infos: "batch_charge_infos tb = concat (map call_charge_infos ces)"
    by (simp add: batch_charge_infos_def ces)
  show ?thesis
  proof (cases b)
    case True
    with callEventDetails_loop_Inr [OF loop] obtain ci
      where "ci \<in> set (batch_charge_infos tb)" and "p ci = Inr True"
      unfolding infos by auto
    with assms(1) [of ci True] True show ?thesis by auto
  next
    case False
    with callEventDetails_loop_Inr [OF loop]
    have "\<forall>ci \<in> set (batch_charge_infos tb). p ci = Inr False"
      unfolding infos by simp
    with assms(1) False show ?thesis by auto
  qed
qed

lemma chargeDetailList_loop_Inr:
  "chargeDetailList_loop pos cds = Inr b \<Longrightarrow>
     b = (\<exists>cd \<in> set cds. case charge cd of None \<Rightarrow> False | Some c \<Rightarrow> pos c)"
  by (induction cds) (auto split: option.splits if_splits)

lemma ChargeInfoContainsPositiveCharges_Inr:
  "ChargeInfoContainsPositiveCharges e tb ci = Inr v \<Longrightarrow> v = charge_info_positive e tb ci"
  by (auto simp add: ChargeInfoContainsPositiveCharges_def charge_info_positive_def ebind_eq_Inr
        dest!: chargeDetailList_loop_Inr)

lemma BatchContainsTaxes_Inr: "BatchContainsTaxes tb = Inr b \<Longrightarrow> b = batch_has_taxes tb"
  unfolding BatchContainsTaxes_def batch_has_taxes_def
  by (rule BatchContains_Inr [where q = "\<lambda>ci. taxInformation ci \<noteq> None"]) auto

lemma BatchContainsDiscounts_Inr:
  "BatchContainsDiscounts tb = Inr b \<Longrightarrow> b = batch_has_discounts tb"
  unfolding BatchContainsDiscounts_def batch_has_discounts_def
  by (rule BatchContains_Inr [where q = "\<lambda>ci. discountInformation ci \<noteq> None"]) auto

lemma BatchContainsPositiveCharges_Inr:
  "BatchContainsPositiveCharges e tb = Inr b \<Longrightarrow> b = batch_has_positive_charges e tb"
  unfolding BatchContainsPositiveCharges_def batch_has_positive_charges_def
  by (rule BatchContains_Inr [where q = "charge_info_positive e tb"])
     (auto dest: ChargeInfoContainsPositiveCharges_Inr)

text \<open>With every list in place an evaluator returns.\<close>

lemma chargeInformationList_loop_total:
  assumes "\<forall>ci \<in> set cis. p ci = Inr (q ci)"
  shows "chargeInformationList_loop p cis = Inr (\<exists>ci \<in> set cis. q ci)"
  using assms by (induction cis) auto

lemma basicServiceUsedList_loop_total:
  assumes "basicServices_present (Some bss)"
    and "\<forall>ci \<in> set (basicServices_charge_infos (Some bss)). p ci = Inr (q ci)"
  shows "basicServiceUsedList_loop p bss
           = Inr (\<exists>ci \<in> set (basicServices_charge_infos (Some bss)). q ci)"
  using assms
proof (induction bss)
  case Nil
  then show ?case by (simp add: basicServices_charge_infos_def)
next
  case (Cons bs bss)
  from Cons.prems obtain cil where cil: "bsu_chargeInformationList bs = Some cil"
    by (auto simp add: basicServices_present_def)
  have here: "chargeInformationList_loop p cil = Inr (\<exists>ci \<in> set cil. q ci)"
    using Cons.prems(2) cil
    by (intro chargeInformationList_loop_total) (simp add: basicServices_charge_infos_def)
  have rest: "basicServiceUsedList_loop p bss
                = Inr (\<exists>ci \<in> set (basicServices_charge_infos (Some bss)). q ci)"
    using Cons.prems
    by (intro Cons.IH) (auto simp add: basicServices_present_def basicServices_charge_infos_def)
  show ?case
    using cil here rest by (auto simp add: basicServices_charge_infos_def)
qed

lemma callEvent_contains_total:
  assumes "call_lists_present ce"
    and "\<forall>ci \<in> set (call_charge_infos ce). p ci = Inr (q ci)"
  shows "callEvent_contains p ce = Inr (\<exists>ci \<in> set (call_charge_infos ce). q ci)"
proof (cases ce)
  case (CallEventDetail_mobileOriginatedCall c)
  with assms obtain bss where "moc_basicServiceUsedList c = Some bss"
    by (auto simp add: basicServices_present_def split: option.splits)
  with assms CallEventDetail_mobileOriginatedCall show ?thesis
    by (simp add: callEvent_contains_def basicServiceUsedList_loop_total)
next
  case (CallEventDetail_mobileTerminatedCall c)
  with assms obtain bss where "mtc_basicServiceUsedList c = Some bss"
    by (auto simp add: basicServices_present_def split: option.splits)
  with assms CallEventDetail_mobileTerminatedCall show ?thesis
    by (simp add: callEvent_contains_def basicServiceUsedList_loop_total)
next
  case (CallEventDetail_gprsCall c)
  with assms obtain g cil where g: "gprsServiceUsed c = Some g"
    and cil: "gsu_chargeInformationList g = Some cil"
    by (auto split: option.splits)
  with assms(2) CallEventDetail_gprsCall have "\<forall>ci \<in> set cil. p ci = Inr (q ci)" by simp
  from chargeInformationList_loop_total [OF this] g cil CallEventDetail_gprsCall
  show ?thesis by (simp add: callEvent_contains_def)
next
  case CallEventDetail_other
  then show ?thesis by (simp add: callEvent_contains_def)
qed

lemma callEventDetails_loop_total:
  assumes "list_all call_lists_present ces"
    and "\<forall>ci \<in> set (concat (map call_charge_infos ces)). p ci = Inr (q ci)"
  shows "callEventDetails_loop p ces
           = Inr (\<exists>ci \<in> set (concat (map call_charge_infos ces)). q ci)"
  using assms
proof (induction ces)
  case Nil
  then show ?case by simp
next
  case (Cons ce ces)
  have here: "callEvent_contains p ce = Inr (\<exists>ci \<in> set (call_charge_infos ce). q ci)"
    using Cons.prems by (intro callEvent_contains_total) auto
  have rest: "callEventDetails_loop p ces
                = Inr (\<exists>ci \<in> set (concat (map call_charge_infos ces)). q ci)"
    using Cons.prems by (intro Cons.IH) auto
  show ?case using here rest by auto
qed

lemma BatchContains_total:
  assumes "lists_present tb"
    and "\<forall>ci \<in> set (batch_charge_infos tb). p ci = Inr (q ci)"
  shows "BatchContains p tb = Inr (\<exists>ci \<in> set (batch_charge_infos tb). q ci)"
proof -
  from assms(1) obtain ces where ces: "callEventDetails tb = Some ces"
    and all: "list_all call_lists_present ces"
    by (auto simp add: lists_present_def split: option.splits)
  have infos: "batch_charge_infos tb = concat (map call_charge_infos ces)"
    by (simp add: batch_charge_infos_def ces)
  from assms(2) have "\<forall>ci \<in> set (concat (map call_charge_infos ces)). p ci = Inr (q ci)"
    unfolding infos .
  from callEventDetails_loop_total [OF all this] show ?thesis
    unfolding infos by (simp add: BatchContains_def ces)
qed

lemma chargeDetailList_loop_total:
  "list_all (\<lambda>cd. charge cd \<noteq> None) cds \<Longrightarrow>
     chargeDetailList_loop pos cds
       = Inr (\<exists>cd \<in> set cds. case charge cd of None \<Rightarrow> False | Some c \<Rightarrow> pos c)"
  by (induction cds) auto

lemma ChargeInfoContainsPositiveCharges_total:
  assumes "accountingInfo tb = Some ai" and "tapDecimalPlaces ai = Some d"
    and "charge_info_present ci"
  shows "ChargeInfoContainsPositiveCharges e tb ci = Inr (charge_info_positive e tb ci)"
  using assms
  by (auto simp add: ChargeInfoContainsPositiveCharges_def charge_info_positive_def
        charge_info_present_def chargeDetailList_loop_total split: option.splits)

lemma BatchContainsTaxes_total:
  "lists_present tb \<Longrightarrow> BatchContainsTaxes tb = Inr (batch_has_taxes tb)"
  by (simp add: BatchContainsTaxes_def batch_has_taxes_def BatchContains_total)

lemma BatchContainsDiscounts_total:
  "lists_present tb \<Longrightarrow> BatchContainsDiscounts tb = Inr (batch_has_discounts tb)"
  by (simp add: BatchContainsDiscounts_def batch_has_discounts_def BatchContains_total)

lemma BatchContainsPositiveCharges_total:
  assumes "lists_present tb" and "charges_present tb"
  shows "BatchContainsPositiveCharges e tb = Inr (batch_has_positive_charges e tb)"
proof -
  from assms(2) obtain ai d where "accountingInfo tb = Some ai" and "tapDecimalPlaces ai = Some d"
    and "list_all charge_info_present (batch_charge_infos tb)"
    by (auto simp add: charges_present_def split: option.splits)
  then have "\<forall>ci \<in> set (batch_charge_infos tb).
               ChargeInfoContainsPositiveCharges e tb ci = Inr (charge_info_positive e tb ci)"
    by (auto simp add: list_all_iff intro: ChargeInfoContainsPositiveCharges_total)
  with assms(1) show ?thesis
    by (simp add: BatchContainsPositiveCharges_def batch_has_positive_charges_def
          BatchContains_total)
qed



section \<open>Proofs: the section validators\<close>

lemma section_paths_mem:
  "[asn_DEF_TransferBatch (asn_defs e)] \<in> set (section_paths e)"
  "[asn_DEF_TransferBatch (asn_defs e), asn_DEF_BatchControlInfo (asn_defs e)] \<in> set (section_paths e)"
  "[asn_DEF_TransferBatch (asn_defs e), asn_DEF_AccountingInfo (asn_defs e)] \<in> set (section_paths e)"
  "[asn_DEF_TransferBatch (asn_defs e), asn_DEF_AccountingInfo (asn_defs e),
    asn_DEF_CurrencyConversionList (asn_defs e)] \<in> set (section_paths e)"
  "[asn_DEF_TransferBatch (asn_defs e), asn_DEF_NetworkInfo (asn_defs e)] \<in> set (section_paths e)"
  "[asn_DEF_TransferBatch (asn_defs e), asn_DEF_AuditControlInfo (asn_defs e)] \<in> set (section_paths e)"
  "[asn_DEF_TransferBatch (asn_defs e), asn_DEF_AuditControlInfo (asn_defs e),
    asn_DEF_CallEventDetailsCount (asn_defs e)] \<in> set (section_paths e)"
  by (simp_all add: section_paths_def Let_def)

lemma ValidateBatchControlInfo_Inr:
  assumes "ValidateBatchControlInfo e tb s = Inr (r, s')"
  shows "(r = TAP_VALID \<and> s' = s
            \<and> (\<exists>bci. batchControlInfo tb = Some bci \<and> batchControl_rules bci))
         \<or> (r = VALIDATION_IMPOSSIBLE \<and> s' = s)
         \<or> (r \<noteq> TAP_VALID
            \<and> (\<exists>code. rap_sent tb \<lparr>errorCode = code,
                   errorContext = context_path [asn_DEF_TransferBatch (asn_defs e),
                                                asn_DEF_BatchControlInfo (asn_defs e)]\<rparr> s s'))"
  using assms
  by (auto simp add: ValidateBatchControlInfo_def ebind_eq_Inr rap_result_Inr
        batchControl_rules_def
        split: if_splits dest!: CreateBatchControlInfoRAPFile_Inr)

lemma ValidateNetworkInfo_Inr:
  assumes "ValidateNetworkInfo e tb s = Inr (r, s')"
  shows "(r = TAP_VALID \<and> s' = s
            \<and> (\<exists>ni. networkInfo tb = Some ni \<and> network_rules ni))
         \<or> (r \<noteq> TAP_VALID
            \<and> (\<exists>code. rap_sent tb \<lparr>errorCode = code,
                   errorContext = context_path [asn_DEF_TransferBatch (asn_defs e),
                                                asn_DEF_NetworkInfo (asn_defs e)]\<rparr> s s'))"
  using assms
  by (auto simp add: ValidateNetworkInfo_def ebind_eq_Inr rap_result_Inr network_rules_def
        split: if_splits dest!: CreateNetworkInfoRAPFile_Inr)

lemma ValidateAuditControlInfo_Inr:
  assumes "ValidateAuditControlInfo e tb s = Inr (r, s')"
  shows "(r = TAP_VALID \<and> s' = s
            \<and> (\<exists>aci. auditControlInfo tb = Some aci \<and> audit_rules tb aci))
         \<or> (r \<noteq> TAP_VALID
            \<and> (\<exists>code path. path \<in> set (section_paths e)
                  \<and> rap_sent tb \<lparr>errorCode = code, errorContext = context_path path\<rparr> s s'))"
proof -
  from assms obtain aci where aci: "auditControlInfo tb = Some aci"
    by (auto simp add: ValidateAuditControlInfo_def ebind_eq_Inr)
  let ?two = "[asn_DEF_TransferBatch (asn_defs e), asn_DEF_AuditControlInfo (asn_defs e)]"
  let ?three = "?two @ [asn_DEF_CallEventDetailsCount (asn_defs e)]"
  from assms aci have
    "(r = TAP_VALID \<and> s' = s \<and> audit_rules tb aci)
     \<or> (r \<noteq> TAP_VALID \<and> (\<exists>code. rap_sent tb \<lparr>errorCode = code, errorContext = context_path ?two\<rparr> s s'))
     \<or> (r \<noteq> TAP_VALID \<and> (\<exists>code. rap_sent tb \<lparr>errorCode = code, errorContext = context_path ?three\<rparr> s s'))"
    by (auto simp add: ValidateAuditControlInfo_def ebind_eq_Inr rap_result_Inr audit_rules_def
          split: if_splits option.splits dest!: CreateAuditControlInfoRAPFile_Inr)
  with aci section_paths_mem(6,7) [of e] show ?thesis by auto
qed

section \<open>Proofs: the accounting section\<close>

lemma cc_first_rule_None:
  assumes "\<forall>i < length l. cc_entry_rule c l i = None"
  shows "cc_first_rule c l = None"
proof -
  have "find (\<lambda>i. cc_entry_rule c l i \<noteq> None) [0..<length l] = None"
    using assms by (simp add: find_None_iff)
  then show ?thesis by (simp add: cc_first_rule_def)
qed

lemma cc_first_rule_Some:
  assumes "k < length l" and "\<forall>i < k. cc_entry_rule c l i = None"
    and "cc_entry_rule c l k = Some x"
  shows "cc_first_rule c l = Some x"
proof -
  have "find (\<lambda>i. cc_entry_rule c l i \<noteq> None) [0..<length l] = Some k"
    using assms by (auto simp add: find_Some_iff intro!: exI [of _ k])
  then show ?thesis using assms(3) by (simp add: cc_first_rule_def)
qed

lemma cc_first_rule_None_iff:
  "(cc_first_rule c l = None) = (\<forall>i < length l. cc_entry_rule c l i = None)"
proof
  assume "\<forall>i < length l. cc_entry_rule c l i = None"
  then show "cc_first_rule c l = None" by (rule cc_first_rule_None)
next
  assume n: "cc_first_rule c l = None"
  show "\<forall>i < length l. cc_entry_rule c l i = None"
  proof (cases "find (\<lambda>i. cc_entry_rule c l i \<noteq> None) [0..<length l]")
    case None
    then show ?thesis by (auto simp add: find_None_iff)
  next
    case (Some k)
    then have "cc_entry_rule c l k \<noteq> None" by (auto simp add: find_Some_iff)
    with n Some show ?thesis by (simp add: cc_first_rule_def)
  qed
qed

lemma cc_entry_rule_at:
  "cc_entry_rule c (pre @ cc # rest) (length pre) =
     (if exchangeRateCode cc = None then Some (CURRENCY_CONVERSION_EXRATE_CODE_MISSING c)
      else if numberOfDecimalPlaces cc = None
        then Some (CURRENCY_CONVERSION_NUM_OF_DEC_PLACES_MISSING c)
      else if exchangeRate cc = None then Some (CURRENCY_CONVERSION_EXCHANGE_RATE_MISSING c)
      else if exchangeRateCode cc \<in> set (map exchangeRateCode pre)
        then Some (CURRENCY_CONVERSION_EXRATE_CODE_DUPLICATION c)
      else None)"
  by (simp add: cc_entry_rule_def Let_def)

text \<open>
  The loop, started after a prefix whose entries match no rule and with the codes of
  that prefix in the set, ends as the first matching entry of the whole list says.
\<close>

lemma currencyConversion_loop_Inr:
  assumes "\<forall>i < length pre. cc_entry_rule (tap_constants e) (pre @ rest) i = None"
    and "\<forall>x. (x \<in> codes) = (Some x \<in> set (map exchangeRateCode pre))"
    and "currencyConversion_loop e tb codes rest s = Inr (r, s')"
  shows "case cc_first_rule (tap_constants e) (pre @ rest) of
           None \<Rightarrow> r = TAP_VALID \<and> s' = s
         | Some code \<Rightarrow>
             r \<noteq> TAP_VALID
             \<and> rap_sent tb \<lparr>errorCode = code,
                  errorContext = context_path
                    [asn_DEF_TransferBatch (asn_defs e), asn_DEF_AccountingInfo (asn_defs e),
                     asn_DEF_CurrencyConversionList (asn_defs e)]\<rparr> s s'"
  using assms
proof (induction rest arbitrary: pre codes)
  case Nil
  then have "cc_first_rule (tap_constants e) (pre @ []) = None"
    by (intro cc_first_rule_None) simp
  with Nil.prems(3) show ?case by simp
next
  case (Cons cc rest)
  let ?c = "tap_constants e"
  let ?l = "pre @ cc # rest"
  have k: "length pre < length ?l" by simp
  show ?case
  proof (cases "cc_entry_rule ?c ?l (length pre)")
    case (Some x)
    have first: "cc_first_rule ?c ?l = Some x"
      using k Cons.prems(1) Some by (rule cc_first_rule_Some)
    from Some Cons.prems(2,3) obtain res where
      "CreateAccountingInfoRAPFile e tb x
         (Some (asn_DEF_CurrencyConversionList (asn_defs e))) s = Inr (res, s')"
      and "r = (if res \<ge> 0 then FATAL_ERROR else VALIDATION_IMPOSSIBLE)"
      by (auto simp add: cc_entry_rule_at rap_result_Inr split: if_splits option.splits)
    with CreateAccountingInfoRAPFile_Inr
           [of e tb x "Some (asn_DEF_CurrencyConversionList (asn_defs e))" s res s'] first
    show ?thesis by (auto split: if_splits)
  next
    case None
    then obtain code where code: "exchangeRateCode cc = Some code"
      and fine: "numberOfDecimalPlaces cc \<noteq> None" "exchangeRate cc \<noteq> None"
        "Some code \<notin> set (map exchangeRateCode pre)"
      by (auto simp add: cc_entry_rule_at split: if_splits)
    have notin: "code \<notin> codes" using fine(3) Cons.prems(2) by simp
    have step: "currencyConversion_loop e tb (insert code codes) rest s = Inr (r, s')"
      using Cons.prems(3) code fine notin by auto
    have pre': "\<forall>i < length (pre @ [cc]). cc_entry_rule ?c ((pre @ [cc]) @ rest) i = None"
      using Cons.prems(1) None by (auto simp add: less_Suc_eq)
    have codes': "\<forall>x. (x \<in> insert code codes)
                     = (Some x \<in> set (map exchangeRateCode (pre @ [cc])))"
      using Cons.prems(2) code by auto
    from Cons.IH [OF pre' codes' step] show ?thesis by simp
  qed
qed

lemma accounting_rap_result:
  assumes "rap_result (CreateAccountingInfoRAPFile e tb code l3 s) = Inr (r, s')"
  shows "r \<noteq> TAP_VALID
         \<and> rap_sent tb \<lparr>errorCode = code,
              errorContext = context_path
                ([asn_DEF_TransferBatch (asn_defs e), asn_DEF_AccountingInfo (asn_defs e)]
                 @ (case l3 of None \<Rightarrow> [] | Some d \<Rightarrow> [d]))\<rparr> s s'"
proof -
  from assms obtain res where
    "CreateAccountingInfoRAPFile e tb code l3 s = Inr (res, s')"
    and "r = (if res \<ge> 0 then FATAL_ERROR else VALIDATION_IMPOSSIBLE)"
    by (auto simp add: rap_result_Inr)
  with CreateAccountingInfoRAPFile_Inr [of e tb code l3 s res s'] show ?thesis
    by (cases "res \<ge> 0") simp_all
qed

lemma ValidateAccountingInfo_Inr:
  assumes "accountingInfo tb = Some ai"
    and "ValidateAccountingInfo e tb s = Inr (r, s')"
  shows "case accounting_first_rule e tb ai of
           None \<Rightarrow> r = TAP_VALID \<and> s' = s
         | Some (code, path) \<Rightarrow>
             r \<noteq> TAP_VALID
             \<and> rap_sent tb \<lparr>errorCode = code, errorContext = context_path path\<rparr> s s'"
proof -
  let ?c = "tap_constants e"
  let ?two = "[asn_DEF_TransferBatch (asn_defs e), asn_DEF_AccountingInfo (asn_defs e)]"
  let ?three = "?two @ [asn_DEF_CurrencyConversionList (asn_defs e)]"
  let ?goal = "\<lambda>rule. case rule of
           None \<Rightarrow> r = TAP_VALID \<and> s' = s
         | Some (code, path) \<Rightarrow>
             r \<noteq> TAP_VALID
             \<and> rap_sent tb \<lparr>errorCode = code, errorContext = context_path path\<rparr> s s'"
  note V = assms(2) [unfolded ValidateAccountingInfo_def, simplified assms(1), simplified]
  show ?thesis
  proof (cases "localCurrency ai = None")
    case True
    then have "rap_result (CreateAccountingInfoRAPFile e tb
                 (ACCOUNTING_LOCAL_CURRENCY_MISSING ?c) None s) = Inr (r, s')"
      using V by simp
    from accounting_rap_result [OF this] True show ?thesis
      by (auto simp add: accounting_first_rule_def Let_def)
  next
    case l: False
    show ?thesis
    proof (cases "tapDecimalPlaces ai = None")
      case True
      then have "rap_result (CreateAccountingInfoRAPFile e tb
                   (ACCOUNTING_TAP_DECIMAL_PLACES_MISSING ?c) None s) = Inr (r, s')"
        using V l by simp
      from accounting_rap_result [OF this] True l show ?thesis
        by (auto simp add: accounting_first_rule_def Let_def)
    next
      case d: False
      from V l d obtain c3 where
        c3: "(if taxation ai = None then BatchContainsTaxes tb else Inr False) = Inr c3"
        and V3: "(if c3 then rap_result (CreateAccountingInfoRAPFile e tb
                     (ACCOUNTING_TAXATION_MISSING ?c) None s)
                  else ebind (if discounting ai = None then BatchContainsDiscounts tb
                              else Inr False)
                    (\<lambda>c4. if c4 then rap_result (CreateAccountingInfoRAPFile e tb
                             (ACCOUNTING_DISCOUNTING_MISSING ?c) None s)
                      else ebind (if currencyConversionInfo ai = None
                                  then BatchContainsPositiveCharges e tb else Inr False)
                        (\<lambda>c5. if c5 then rap_result (CreateAccountingInfoRAPFile e tb
                                 (ACCOUNTING_CURRENCY_CONVERSION_MISSING ?c) None s)
                          else (case currencyConversionInfo ai of
                                  None \<Rightarrow> Inr (TAP_VALID, s)
                                | Some l \<Rightarrow> currencyConversion_loop e tb {} l s))))
                = Inr (r, s')"
        by (auto simp add: ebind_eq_Inr)
      have c3': "c3 = (taxation ai = None \<and> batch_has_taxes tb)"
        using c3 by (auto split: if_splits dest: BatchContainsTaxes_Inr)
      show ?thesis
      proof (cases c3)
        case True
        then have "rap_result (CreateAccountingInfoRAPFile e tb
                     (ACCOUNTING_TAXATION_MISSING ?c) None s) = Inr (r, s')"
          using V3 by simp
        from accounting_rap_result [OF this] True l d c3' show ?thesis
          by (auto simp add: accounting_first_rule_def Let_def)
      next
        case n3: False
        from V3 n3 obtain c4 where
          c4: "(if discounting ai = None then BatchContainsDiscounts tb else Inr False) = Inr c4"
          and V4: "(if c4 then rap_result (CreateAccountingInfoRAPFile e tb
                             (ACCOUNTING_DISCOUNTING_MISSING ?c) None s)
                      else ebind (if currencyConversionInfo ai = None
                                  then BatchContainsPositiveCharges e tb else Inr False)
                        (\<lambda>c5. if c5 then rap_result (CreateAccountingInfoRAPFile e tb
                                 (ACCOUNTING_CURRENCY_CONVERSION_MISSING ?c) None s)
                          else (case currencyConversionInfo ai of
                                  None \<Rightarrow> Inr (TAP_VALID, s)
                                | Some l \<Rightarrow> currencyConversion_loop e tb {} l s)))
                = Inr (r, s')"
          by (auto simp add: ebind_eq_Inr)
        have c4': "c4 = (discounting ai = None \<and> batch_has_discounts tb)"
          using c4 by (auto split: if_splits dest: BatchContainsDiscounts_Inr)
        show ?thesis
        proof (cases c4)
          case True
          then have "rap_result (CreateAccountingInfoRAPFile e tb
                       (ACCOUNTING_DISCOUNTING_MISSING ?c) None s) = Inr (r, s')"
            using V4 by simp
          from accounting_rap_result [OF this] True l d c3' n3 c4' show ?thesis
            by (auto simp add: accounting_first_rule_def Let_def)
        next
          case n4: False
          from V4 n4 obtain c5 where
            c5: "(if currencyConversionInfo ai = None then BatchContainsPositiveCharges e tb
                  else Inr False) = Inr c5"
            and V5: "(if c5 then rap_result (CreateAccountingInfoRAPFile e tb
                                 (ACCOUNTING_CURRENCY_CONVERSION_MISSING ?c) None s)
                          else (case currencyConversionInfo ai of
                                  None \<Rightarrow> Inr (TAP_VALID, s)
                                | Some l \<Rightarrow> currencyConversion_loop e tb {} l s))
                = Inr (r, s')"
            by (auto simp add: ebind_eq_Inr)
          have c5': "c5 = (currencyConversionInfo ai = None \<and> batch_has_positive_charges e tb)"
            using c5 by (auto split: if_splits dest: BatchContainsPositiveCharges_Inr)
          show ?thesis
          proof (cases c5)
            case True
            then have "rap_result (CreateAccountingInfoRAPFile e tb
                         (ACCOUNTING_CURRENCY_CONVERSION_MISSING ?c) None s) = Inr (r, s')"
              using V5 by simp
            from accounting_rap_result [OF this] True l d c3' n3 c4' n4 c5' show ?thesis
              by (auto simp add: accounting_first_rule_def Let_def)
          next
            case n5: False
            show ?thesis
            proof (cases "currencyConversionInfo ai")
              case None
              with V5 n5 have "r = TAP_VALID \<and> s' = s" by simp
              with None l d c3' n3 c4' n4 c5' n5 show ?thesis
                by (auto simp add: accounting_first_rule_def Let_def)
            next
              case (Some cl)
              with V5 n5 have
                loop: "currencyConversion_loop e tb {} cl s = Inr (r, s')" by simp
              have "case cc_first_rule ?c ([] @ cl) of
                      None \<Rightarrow> r = TAP_VALID \<and> s' = s
                    | Some code \<Rightarrow>
                        r \<noteq> TAP_VALID
                        \<and> rap_sent tb \<lparr>errorCode = code,
                             errorContext = context_path
                               [asn_DEF_TransferBatch (asn_defs e),
                                asn_DEF_AccountingInfo (asn_defs e),
                                asn_DEF_CurrencyConversionList (asn_defs e)]\<rparr> s s'"
                using loop by (intro currencyConversion_loop_Inr [where codes = "{}"]) simp_all
              with Some l d c3' n3 c4' n4 c5' n5 show ?thesis
                by (auto simp add: accounting_first_rule_def Let_def split: option.splits)
            qed
          qed
        qed
      qed
    qed
  qed
qed

section \<open>Proofs: the whole validation\<close>

lemma transferBatch_rap_result:
  assumes "CreateTransferBatchRAPFile e tb code s = Inr (res, s')"
  shows "\<exists>code path. path \<in> set (section_paths e)
           \<and> rap_sent tb \<lparr>errorCode = code, errorContext = context_path path\<rparr> s s'"
  using CreateTransferBatchRAPFile_Inr [OF assms] section_paths_mem(1) [of e] by blast

text \<open>
  With the four sections present, the result of \<^verbatim>\<open>ValidateTransferBatch\<close> is that of
  the first section validator that does not answer \<^verbatim>\<open>TAP_VALID\<close>; the validators
  before it have left the state as it was.
\<close>

lemma ValidateTransferBatch_sections:
  assumes "ValidateTransferBatch e tb s = Inr (r, s')"
    and "batchControlInfo tb \<noteq> None" and "accountingInfo tb \<noteq> None"
    and "networkInfo tb \<noteq> None" and "auditControlInfo tb \<noteq> None"
  shows "(r \<noteq> TAP_VALID \<and> ValidateBatchControlInfo e tb s = Inr (r, s'))
       \<or> (ValidateBatchControlInfo e tb s = Inr (TAP_VALID, s)
          \<and> r \<noteq> TAP_VALID \<and> ValidateAccountingInfo e tb s = Inr (r, s'))
       \<or> (ValidateBatchControlInfo e tb s = Inr (TAP_VALID, s)
          \<and> ValidateAccountingInfo e tb s = Inr (TAP_VALID, s)
          \<and> r \<noteq> TAP_VALID \<and> ValidateNetworkInfo e tb s = Inr (r, s'))
       \<or> (ValidateBatchControlInfo e tb s = Inr (TAP_VALID, s)
          \<and> ValidateAccountingInfo e tb s = Inr (TAP_VALID, s)
          \<and> ValidateNetworkInfo e tb s = Inr (TAP_VALID, s)
          \<and> ValidateAuditControlInfo e tb s = Inr (r, s'))"
proof -
  from assms(3) obtain ai where ai: "accountingInfo tb = Some ai" by auto
  note V = assms(1) [unfolded ValidateTransferBatch_def differs_from_TL_OK_def,
                     simplified assms(2-5), simplified]
  from V obtain r1 s1 where
    v1: "ValidateBatchControlInfo e tb s = Inr (r1, s1)"
    by (auto simp add: ebind_eq_Inr)
  show ?thesis
  proof (cases "r1 = TAP_VALID")
    case False
    with V v1 show ?thesis by auto
  next
    case True
    with ValidateBatchControlInfo_Inr [OF v1] have s1: "s1 = s" by auto
    from V v1 True s1 obtain r2 s2 where
      v2: "ValidateAccountingInfo e tb s = Inr (r2, s2)"
      by (auto simp add: ebind_eq_Inr)
    show ?thesis
    proof (cases "r2 = TAP_VALID")
      case False
      with V v1 True s1 v2 show ?thesis by auto
    next
      case t2: True
      with ValidateAccountingInfo_Inr [OF ai v2] have s2: "s2 = s"
        by (auto split: option.splits)
      from V v1 True s1 v2 t2 s2 obtain r3 s3 where
        v3: "ValidateNetworkInfo e tb s = Inr (r3, s3)"
        by (auto simp add: ebind_eq_Inr)
      show ?thesis
      proof (cases "r3 = TAP_VALID")
        case False
        with V v1 True s1 v2 t2 s2 v3 show ?thesis by auto
      next
        case t3: True
        with ValidateNetworkInfo_Inr [OF v3] have s3: "s3 = s" by auto
        from V v1 True s1 v2 t2 s2 v3 t3 s3 obtain r4 s4 where
          v4: "ValidateAuditControlInfo e tb s = Inr (r4, s4)"
          by (auto simp add: ebind_eq_Inr)
        with V v1 True s1 v2 t2 s2 v3 t3 s3 show ?thesis
          by (auto split: if_splits)
      qed
    qed
  qed
qed

text \<open>A run either leaves the state alone or sends a RAP on one of the known paths.\<close>

lemma ValidateTransferBatch_Inr:
  assumes "ValidateTransferBatch e tb s = Inr (r, s')"
  shows "s' = s
         \<or> (\<exists>code path. path \<in> set (section_paths e)
               \<and> rap_sent tb \<lparr>errorCode = code, errorContext = context_path path\<rparr> s s')"
proof (cases "batchControlInfo tb \<noteq> None \<and> accountingInfo tb \<noteq> None
              \<and> networkInfo tb \<noteq> None \<and> auditControlInfo tb \<noteq> None")
  case False
  with assms obtain code res where
    "CreateTransferBatchRAPFile e tb code s = Inr (res, s')"
    by (auto simp add: ValidateTransferBatch_def rap_result_Inr ebind_eq_Inr split: if_splits)
  from transferBatch_rap_result [OF this] show ?thesis by simp
next
  case True
  then obtain ai where ai: "accountingInfo tb = Some ai" by auto
  from True ValidateTransferBatch_sections [OF assms] consider
      (bci) "ValidateBatchControlInfo e tb s = Inr (r, s')"
    | (ai) "r \<noteq> TAP_VALID" "ValidateAccountingInfo e tb s = Inr (r, s')"
    | (ni) "ValidateNetworkInfo e tb s = Inr (r, s')"
    | (aci) "ValidateAuditControlInfo e tb s = Inr (r, s')"
    by blast
  then show ?thesis
  proof cases
    case bci
    from ValidateBatchControlInfo_Inr [OF this] section_paths_mem(2) [of e]
    show ?thesis by blast
  next
    case ai
    from ValidateAccountingInfo_Inr [OF \<open>accountingInfo tb = Some ai\<close> ai(2)] ai(1)
    obtain code path where rule: "accounting_first_rule e tb ai = Some (code, path)"
      and sent: "rap_sent tb \<lparr>errorCode = code, errorContext = context_path path\<rparr> s s'"
      by (auto split: option.splits)
    from rule have "path \<in> set (section_paths e)"
      using section_paths_mem(3,4) [of e]
      by (auto simp add: accounting_first_rule_def Let_def split: if_splits option.splits)
    with sent show ?thesis by blast
  next
    case ni
    from ValidateNetworkInfo_Inr [OF this] section_paths_mem(5) [of e]
    show ?thesis by blast
  next
    case aci
    from ValidateAuditControlInfo_Inr [OF this] show ?thesis by blast
  qed
qed

lemma Validate_Inr:
  assumes "Validate e di s = Inr (r, s')"
  shows "s' = s
         \<or> (\<exists>tb code path. di = DataInterChange_transferBatch tb
               \<and> path \<in> set (section_paths e)
               \<and> rap_sent tb \<lparr>errorCode = code, errorContext = context_path path\<rparr> s s')"
proof (cases di)
  case (DataInterChange_transferBatch tb)
  with assms ValidateTransferBatch_Inr [of e tb s r s'] show ?thesis
    by (auto simp add: Validate_def)
next
  case (DataInterChange_notification n)
  with assms show ?thesis
    by (auto simp add: Validate_def ValidateNotification_def split: if_splits)
next
  case DataInterChange_NOTHING
  with assms show ?thesis by (simp add: Validate_def)
qed

lemma emitted_same [simp]: "emitted s s = []"
  by (simp add: emitted_def)



section \<open>Proofs: running to the end\<close>

lemma EncodeAndUpload_total: "\<exists>res w'. EncodeAndUpload e rb filename hub w = (res, w')"
  by (cases "EncodeAndUpload e rb filename hub w") auto






text \<open>A list of complete entries with new, different codes passes the loop.\<close>

lemma currencyConversion_loop_valid:
  assumes "list_all (\<lambda>cc. exchangeRateCode cc \<noteq> None \<and> numberOfDecimalPlaces cc \<noteq> None
                          \<and> exchangeRate cc \<noteq> None) rest"
    and "distinct (map exchangeRateCode rest)"
    and "\<forall>cc \<in> set rest. \<forall>x. exchangeRateCode cc = Some x \<longrightarrow> x \<notin> codes"
  shows "currencyConversion_loop e tb codes rest s = Inr (TAP_VALID, s)"
  using assms
proof (induction rest arbitrary: codes)
  case Nil
  show ?case by simp
next
  case (Cons cc rest)
  from Cons.prems(1) obtain code where code: "exchangeRateCode cc = Some code"
    and fine: "numberOfDecimalPlaces cc \<noteq> None" "exchangeRate cc \<noteq> None"
    by auto
  from Cons.prems(3) code have notin: "code \<notin> codes" by simp
  have "currencyConversion_loop e tb (insert code codes) rest s = Inr (TAP_VALID, s)"
  proof (rule Cons.IH)
    show "list_all (\<lambda>cc. exchangeRateCode cc \<noteq> None \<and> numberOfDecimalPlaces cc \<noteq> None
                         \<and> exchangeRate cc \<noteq> None) rest"
      using Cons.prems(1) by simp
    show "distinct (map exchangeRateCode rest)" using Cons.prems(2) by simp
    show "\<forall>cc \<in> set rest. \<forall>x. exchangeRateCode cc = Some x \<longrightarrow> x \<notin> insert code codes"
      using Cons.prems(2,3) code by (auto simp add: image_iff)
  qed
  with code fine notin show ?case by auto
qed

lemma cc_entries_rules_iff:
  "cc_entries_rules l = (\<forall>i < length l. cc_entry_rule c l i = None)"
proof
  assume r: "cc_entries_rules l"
  show "\<forall>i < length l. cc_entry_rule c l i = None"
  proof (intro allI impI)
    fix i assume i: "i < length l"
    from r i have "exchangeRateCode (l ! i) \<noteq> None" "numberOfDecimalPlaces (l ! i) \<noteq> None"
      "exchangeRate (l ! i) \<noteq> None"
      by (auto simp add: cc_entries_rules_def list_all_length)
    moreover have "exchangeRateCode (l ! i) \<notin> set (map exchangeRateCode (take i l))"
    proof
      assume "exchangeRateCode (l ! i) \<in> set (map exchangeRateCode (take i l))"
      then obtain j where "j < i" and "exchangeRateCode (l ! j) = exchangeRateCode (l ! i)"
        using i by (auto simp add: in_set_conv_nth)
      moreover from r have "distinct (map exchangeRateCode l)"
        by (simp add: cc_entries_rules_def)
      ultimately show False using i by (auto simp add: distinct_conv_nth)
    qed
    ultimately show "cc_entry_rule c l i = None"
      by (simp add: cc_entry_rule_def Let_def)
  qed
next
  assume a: "\<forall>i < length l. cc_entry_rule c l i = None"
  have complete: "list_all (\<lambda>cc. exchangeRateCode cc \<noteq> None \<and> numberOfDecimalPlaces cc \<noteq> None
                         \<and> exchangeRate cc \<noteq> None) l"
    unfolding list_all_length
  proof (intro allI impI)
    fix i assume "i < length l"
    with a have "cc_entry_rule c l i = None" by simp
    then show "exchangeRateCode (l ! i) \<noteq> None \<and> numberOfDecimalPlaces (l ! i) \<noteq> None
                 \<and> exchangeRate (l ! i) \<noteq> None"
      by (auto simp add: cc_entry_rule_def Let_def split: if_splits)
  qed
  have "distinct (map exchangeRateCode l)"
    unfolding distinct_conv_nth
  proof (intro allI impI)
    fix i j assume i: "i < length (map exchangeRateCode l)"
      and j: "j < length (map exchangeRateCode l)" and ne: "i \<noteq> j"
    have later: "\<And>m k. m < k \<Longrightarrow> k < length l
                  \<Longrightarrow> exchangeRateCode (l ! m) \<noteq> exchangeRateCode (l ! k)"
    proof -
      fix m k assume mk: "m < k" "k < length l"
      with a have "cc_entry_rule c l k = None" by simp
      then have "exchangeRateCode (l ! k) \<notin> set (map exchangeRateCode (take k l))"
        by (auto simp add: cc_entry_rule_def Let_def split: if_splits)
      moreover have "take k l ! m \<in> set (take k l)"
        using mk by (intro nth_mem) simp
      then have "exchangeRateCode (l ! m) \<in> set (map exchangeRateCode (take k l))"
        using mk by simp
      ultimately show "exchangeRateCode (l ! m) \<noteq> exchangeRateCode (l ! k)" by metis
    qed
    from ne consider "i < j" | "j < i" by linarith
    then show "map exchangeRateCode l ! i \<noteq> map exchangeRateCode l ! j"
    proof cases
      case 1
      with later [of i j] i j show ?thesis by simp
    next
      case 2
      with later [of j i] i j show ?thesis by (simp add: eq_commute)
    qed
  qed
  with complete show "cc_entries_rules l" by (simp add: cc_entries_rules_def)
qed

lemma ValidateTransferBatch_valid:
  assumes "transferBatch_rules e tb" and "pointers_present (DataInterChange_transferBatch tb)"
  shows "ValidateTransferBatch e tb s = Inr (TAP_VALID, s)"
proof -
  from assms(1) obtain bci ai ni aci where
    present: "batchControlInfo tb = Some bci" "accountingInfo tb = Some ai"
      "networkInfo tb = Some ni" "auditControlInfo tb = Some aci"
    and rules: "batchControl_rules bci" "accounting_rules e tb ai" "network_rules ni"
      "audit_rules tb aci"
    by (auto simp add: transferBatch_rules_def split: option.splits)
  from assms(2) obtain calls where calls: "callEventDetails tb = Some calls"
    by auto
  have lists: "taxation ai = None \<or> discounting ai = None \<or> currencyConversionInfo ai = None
                 \<Longrightarrow> lists_present tb"
    using assms(2) present(2) by (simp split: if_splits)
  have charges: "currencyConversionInfo ai = None \<Longrightarrow> charges_present tb"
    using assms(2) present(2) by (simp split: if_splits)
  have v1: "ValidateBatchControlInfo e tb s = Inr (TAP_VALID, s)"
    using present(1) rules(1)
    by (auto simp add: ValidateBatchControlInfo_def batchControl_rules_def)
  have c3: "(if taxation ai = None then BatchContainsTaxes tb else Inr False) = Inr False"
  proof (cases "taxation ai = None")
    case True
    with lists have "BatchContainsTaxes tb = Inr (batch_has_taxes tb)"
      by (intro BatchContainsTaxes_total) simp
    with True rules(2) show ?thesis by (simp add: accounting_rules_def)
  next
    case False
    then show ?thesis by auto
  qed
  have c4: "(if discounting ai = None then BatchContainsDiscounts tb else Inr False) = Inr False"
  proof (cases "discounting ai = None")
    case True
    with lists have "BatchContainsDiscounts tb = Inr (batch_has_discounts tb)"
      by (intro BatchContainsDiscounts_total) simp
    with True rules(2) show ?thesis by (simp add: accounting_rules_def)
  next
    case False
    then show ?thesis by auto
  qed
  have c5: "(if currencyConversionInfo ai = None then BatchContainsPositiveCharges e tb
             else Inr False) = Inr False"
  proof (cases "currencyConversionInfo ai = None")
    case True
    with lists charges
    have "BatchContainsPositiveCharges e tb = Inr (batch_has_positive_charges e tb)"
      by (intro BatchContainsPositiveCharges_total) simp_all
    with True rules(2) show ?thesis by (simp add: accounting_rules_def)
  next
    case False
    then show ?thesis by auto
  qed
  have loop: "\<And>l. currencyConversionInfo ai = Some l
                \<Longrightarrow> currencyConversion_loop e tb {} l s = Inr (TAP_VALID, s)"
    using rules(2)
    by (intro currencyConversion_loop_valid)
       (simp_all add: accounting_rules_def cc_entries_rules_def)
  from rules(2) obtain lc dp where
    here: "localCurrency ai = Some lc" "tapDecimalPlaces ai = Some dp"
    by (auto simp add: accounting_rules_def)
  have v2: "ValidateAccountingInfo e tb s = Inr (TAP_VALID, s)"
    unfolding ValidateAccountingInfo_def
    using present(2) here loop
    by (simp add: c3 c4 c5 split: option.splits)
  have v3: "ValidateNetworkInfo e tb s = Inr (TAP_VALID, s)"
    using present(3) rules(3)
    by (auto simp add: ValidateNetworkInfo_def network_rules_def)
  have v4: "ValidateAuditControlInfo e tb s = Inr (TAP_VALID, s)"
    using present(4) rules(4) calls
    by (auto simp add: ValidateAuditControlInfo_def audit_rules_def)
  show ?thesis
    using present v1 v2 v3 v4
    by (simp add: ValidateTransferBatch_def differs_from_TL_OK_def)
qed

text \<open>
  The other way round: an evaluator that answers false has walked through everything,
  so the lists it follows were there.
\<close>

lemma basicServiceUsedList_loop_False:
  "basicServiceUsedList_loop p bss = Inr False \<Longrightarrow> basicServices_present (Some bss)"
  by (induction bss)
     (auto simp add: basicServices_present_def split: option.splits sum.splits if_splits)

lemma callEvent_contains_False:
  "callEvent_contains p ce = Inr False \<Longrightarrow> call_lists_present ce"
  by (cases ce)
     (auto simp add: callEvent_contains_def ebind_eq_Inr
        dest: basicServiceUsedList_loop_False)

lemma callEventDetails_loop_False:
  "callEventDetails_loop p ces = Inr False \<Longrightarrow> list_all call_lists_present ces"
  by (induction ces)
     (auto split: sum.splits if_splits dest: callEvent_contains_False)

lemma BatchContains_False:
  assumes "BatchContains p tb = Inr False"
  shows "lists_present tb \<and> (\<forall>ci \<in> set (batch_charge_infos tb). p ci = Inr False)"
proof -
  from assms obtain ces where ces: "callEventDetails tb = Some ces"
    and loop: "callEventDetails_loop p ces = Inr False"
    by (auto simp add: BatchContains_def ebind_eq_Inr)
  from callEventDetails_loop_False [OF loop] callEventDetails_loop_Inr [OF loop] ces
  show ?thesis by (simp add: lists_present_def batch_charge_infos_def)
qed

lemma chargeDetailList_loop_False:
  "chargeDetailList_loop pos cds = Inr False \<Longrightarrow> list_all (\<lambda>cd. charge cd \<noteq> None) cds"
  by (induction cds) (auto split: option.splits if_splits)

lemma ChargeInfoContainsPositiveCharges_False:
  "ChargeInfoContainsPositiveCharges e tb ci = Inr False \<Longrightarrow> charge_info_present ci"
  by (auto simp add: ChargeInfoContainsPositiveCharges_def charge_info_present_def ebind_eq_Inr
        dest: chargeDetailList_loop_False)

lemma ValidateAccountingInfo_TAP_VALID:
  assumes "accountingInfo tb = Some ai"
    and "ValidateAccountingInfo e tb s = Inr (TAP_VALID, s')"
  shows "tapDecimalPlaces ai \<noteq> None
         \<and> (taxation ai = None \<longrightarrow> BatchContainsTaxes tb = Inr False)
         \<and> (discounting ai = None \<longrightarrow> BatchContainsDiscounts tb = Inr False)
         \<and> (currencyConversionInfo ai = None
              \<longrightarrow> BatchContainsPositiveCharges e tb = Inr False)"
proof -
  have no: "\<And>code l3. rap_result (CreateAccountingInfoRAPFile e tb code l3 s)
                          \<noteq> Inr (TAP_VALID, s')"
    by (auto simp add: rap_result_Inr)
  note V = assms(2) [unfolded ValidateAccountingInfo_def, simplified assms(1), simplified]
  from V no have l: "localCurrency ai \<noteq> None" by (auto split: if_splits)
  from V no l have d: "tapDecimalPlaces ai \<noteq> None" by (auto split: if_splits)
  from V l d obtain c3 where
    c3: "(if taxation ai = None then BatchContainsTaxes tb else Inr False) = Inr c3"
    and V3: "(if c3 then rap_result (CreateAccountingInfoRAPFile e tb
                 (ACCOUNTING_TAXATION_MISSING (tap_constants e)) None s)
              else ebind (if discounting ai = None then BatchContainsDiscounts tb
                          else Inr False)
                (\<lambda>c4. if c4 then rap_result (CreateAccountingInfoRAPFile e tb
                         (ACCOUNTING_DISCOUNTING_MISSING (tap_constants e)) None s)
                  else ebind (if currencyConversionInfo ai = None
                              then BatchContainsPositiveCharges e tb else Inr False)
                    (\<lambda>c5. if c5 then rap_result (CreateAccountingInfoRAPFile e tb
                             (ACCOUNTING_CURRENCY_CONVERSION_MISSING (tap_constants e)) None s)
                      else (case currencyConversionInfo ai of
                              None \<Rightarrow> Inr (TAP_VALID, s)
                            | Some l \<Rightarrow> currencyConversion_loop e tb {} l s))))
            = Inr (TAP_VALID, s')"
    by (auto simp add: ebind_eq_Inr)
  from V3 no have n3: "\<not> c3" by (cases c3) auto
  from V3 n3 obtain c4 where
    c4: "(if discounting ai = None then BatchContainsDiscounts tb else Inr False) = Inr c4"
    and V4: "(if c4 then rap_result (CreateAccountingInfoRAPFile e tb
                         (ACCOUNTING_DISCOUNTING_MISSING (tap_constants e)) None s)
                  else ebind (if currencyConversionInfo ai = None
                              then BatchContainsPositiveCharges e tb else Inr False)
                    (\<lambda>c5. if c5 then rap_result (CreateAccountingInfoRAPFile e tb
                             (ACCOUNTING_CURRENCY_CONVERSION_MISSING (tap_constants e)) None s)
                      else (case currencyConversionInfo ai of
                              None \<Rightarrow> Inr (TAP_VALID, s)
                            | Some l \<Rightarrow> currencyConversion_loop e tb {} l s)))
            = Inr (TAP_VALID, s')"
    by (auto simp add: ebind_eq_Inr)
  from V4 no have n4: "\<not> c4" by (cases c4) auto
  from V4 n4 obtain c5 where
    c5: "(if currencyConversionInfo ai = None then BatchContainsPositiveCharges e tb
          else Inr False) = Inr c5"
    and V5: "(if c5 then rap_result (CreateAccountingInfoRAPFile e tb
                             (ACCOUNTING_CURRENCY_CONVERSION_MISSING (tap_constants e)) None s)
                      else (case currencyConversionInfo ai of
                              None \<Rightarrow> Inr (TAP_VALID, s)
                            | Some l \<Rightarrow> currencyConversion_loop e tb {} l s))
            = Inr (TAP_VALID, s')"
    by (auto simp add: ebind_eq_Inr)
  from V5 no have n5: "\<not> c5" by (cases c5) auto
  from d c3 n3 c4 n4 c5 n5 show ?thesis by (auto split: if_splits)
qed

text \<open>
  So on an input that satisfies the rules, \<^verbatim>\<open>Validate\<close> answers \<^verbatim>\<open>TAP_VALID\<close> only
  if these pointers are present: nothing less would do.
\<close>

lemma TAP_VALID_needs_pointers:
  assumes "tap_rules e di" and "Validate e di s = Inr (TAP_VALID, s')"
  shows "pointers_present di"
proof (cases di)
  case (DataInterChange_transferBatch tb)
  with assms have rules: "transferBatch_rules e tb"
    and V: "ValidateTransferBatch e tb s = Inr (TAP_VALID, s')"
    by (simp_all add: Validate_def)
  from rules obtain bci ai ni aci where
    present: "batchControlInfo tb = Some bci" "accountingInfo tb = Some ai"
      "networkInfo tb = Some ni" "auditControlInfo tb = Some aci"
    and audit: "audit_rules tb aci"
    by (auto simp add: transferBatch_rules_def split: option.splits)
  from ValidateTransferBatch_sections [OF V] present
  have v2: "ValidateAccountingInfo e tb s = Inr (TAP_VALID, s)"
    and v4: "ValidateAuditControlInfo e tb s = Inr (TAP_VALID, s')"
    by auto
  from v4 present(4) audit have calls: "callEventDetails tb \<noteq> None"
    by (auto simp add: ValidateAuditControlInfo_def audit_rules_def ebind_eq_Inr
          split: if_splits)
  note acc = ValidateAccountingInfo_TAP_VALID [OF present(2) v2]
  have lists: "lists_present tb"
    if "taxation ai = None \<or> discounting ai = None \<or> currencyConversionInfo ai = None"
    using that acc
    by (auto simp add: BatchContainsTaxes_def BatchContainsDiscounts_def
          BatchContainsPositiveCharges_def dest: BatchContains_False)
  have charges: "charges_present tb" if "currencyConversionInfo ai = None"
  proof -
    from that acc have "BatchContains (ChargeInfoContainsPositiveCharges e tb) tb = Inr False"
      by (simp add: BatchContainsPositiveCharges_def)
    from BatchContains_False [OF this]
    have "list_all charge_info_present (batch_charge_infos tb)"
      by (auto simp add: list_all_iff dest: ChargeInfoContainsPositiveCharges_False)
    with acc present(2) show ?thesis by (simp add: charges_present_def)
  qed
  from calls lists charges present(2) DataInterChange_transferBatch show ?thesis
    by auto
next
  case (DataInterChange_notification n)
  then show ?thesis by simp
next
  case DataInterChange_NOTHING
  then show ?thesis by simp
qed


section \<open>Proofs: amount serialisation\<close>

declare be_digits.simps [simp del]

lemma byte_mask: "(0xFF::64 word) = mask 8"
  by (simp add: mask_eq_exp_minus_1)

lemma low_byte: "(ucast ((v::64 word) AND 0xFF) :: 8 word) = word_of_int (sint v)"
  unfolding byte_mask by (rule bit_word_eqI) (auto simp add: bit_simps)

lemma low_byte_nat:
  assumes "0 \<le> sint (v::64 word)"
  shows "(ucast (v AND 0xFF) :: 8 word) = of_nat (nat (sint v) mod 256)"
proof -
  have "(word_of_int (sint v) :: 8 word) = word_of_int (sint v mod 256)"
    by (rule bit_word_eqI) (auto simp add: bit_simps take_bit_eq_mod [of 8, simplified, symmetric])
  also have "sint v mod 256 = int (nat (sint v) mod 256)"
    using assms by (simp add: zmod_int)
  finally show ?thesis by (simp add: low_byte)
qed

lemma sdrop: "sint (signed_drop_bit 8 (v::64 word)) = sint v div 256"
  by (simp add: sint_signed_drop_bit_eq drop_bit_eq_div)

lemma sdrop_nat:
  "0 \<le> sint (v::64 word) \<Longrightarrow> nat (sint (signed_drop_bit 8 v)) = nat (sint v) div 256"
  by (simp add: sdrop nat_div_distrib)

lemma sdrop_zero:
  assumes "0 \<le> sint (v::64 word)"
  shows "(signed_drop_bit 8 v = 0) = (nat (sint v) div 256 = 0)"
proof -
  have "(signed_drop_bit 8 v = 0) = (sint (signed_drop_bit 8 v) = 0)"
    by (simp only: signed_eq_0_iff)
  also have "\<dots> = (sint v div 256 = 0)" by (simp only: sdrop)
  also have "\<dots> = (nat (sint v) div 256 = 0)"
    using assms by (auto simp add: div_eq_0_iff zdiv_eq_0_iff nat_less_iff)
  finally show ?thesis .
qed

lemma be_digits_length_pos: "0 < length (be_digits n)"
  by (subst be_digits.simps) simp

lemma sign_pad_be_digits:
  "sign_pad (be_digits n)
     = (if 0x80 \<le> hd (be_digits n) then 0 # be_digits n else be_digits n)"
  using be_digits_length_pos [of n] by (cases "be_digits n") (simp_all add: sign_pad_def)

lemma be_digits_length_le: "n < 256 ^ Suc i \<Longrightarrow> length (be_digits n) \<le> Suc i"
proof (induction i arbitrary: n)
  case 0
  then show ?case by (subst be_digits.simps) simp
next
  case (Suc i)
  have "n div 256 < 256 ^ Suc i"
    using Suc.prems by (simp add: less_mult_imp_div_less mult.commute)
  from Suc.IH [OF this] show ?case
    by (subst be_digits.simps) simp
qed

lemma fill_nonneg:
  assumes "0 \<le> sint v" and "nat (sint v) < 256 ^ Suc i" and "Suc i \<le> length buf"
  shows "fromInt64_fill i v buf =
           (int (Suc i - length (be_digits (nat (sint v)))), 0,
            take (Suc i - length (be_digits (nat (sint v)))) buf
              @ be_digits (nat (sint v)) @ drop (Suc i) buf)"
  using assms
proof (induction i arbitrary: v buf)
  case 0
  then have z: "nat (sint v) div 256 = 0" by simp
  then have d: "be_digits (nat (sint v)) = [of_nat (nat (sint v))]"
    by (subst be_digits.simps) simp
  have m: "nat (sint v) mod 256 = nat (sint v)" using z by (simp add: div_eq_0_iff)
  from 0 show ?case
    by (cases buf) (simp_all add: Let_def sdrop_zero z d low_byte_nat m)
next
  case (Suc i)
  let ?n = "nat (sint v)"
  let ?b = "of_nat (?n mod 256) :: 8 word"
  show ?case
  proof (cases "?n div 256 = 0")
    case True
    then have d: "be_digits ?n = [of_nat ?n]"
      by (subst be_digits.simps) simp
    have m: "?n mod 256 = ?n" using True by (simp add: div_eq_0_iff)
    from Suc.prems True show ?thesis
      by (simp add: Let_def sdrop_zero d low_byte_nat m upd_conv_take_nth_drop)
  next
    case False
    let ?v' = "signed_drop_bit 8 v"
    let ?buf' = "buf[Suc i := ?b]"
    let ?ds' = "be_digits (?n div 256)"
    have d: "be_digits ?n = ?ds' @ [?b]"
      using False by (subst be_digits.simps) simp
    have nn: "0 \<le> sint ?v'" using Suc.prems(1) by (simp add: sdrop pos_imp_zdiv_nonneg_iff)
    have n': "nat (sint ?v') = ?n div 256" using Suc.prems(1) by (rule sdrop_nat)
    have bd: "?n div 256 < 256 ^ Suc i"
      using Suc.prems(2) by (simp add: less_mult_imp_div_less mult.commute)
    have len: "Suc i \<le> length ?buf'" using Suc.prems(3) by simp
    have lp: "0 < length ?ds'" by (rule be_digits_length_pos)
    have ll: "length ?ds' \<le> Suc i" using bd by (rule be_digits_length_le)
    have ih: "fromInt64_fill i ?v' ?buf' =
           (int (Suc i - length ?ds'), 0,
            take (Suc i - length ?ds') ?buf' @ ?ds' @ drop (Suc i) ?buf')"
      using Suc.IH [OF nn _ len] bd n' by simp
    have t: "take (Suc i - length ?ds') ?buf' = take (Suc i - length ?ds') buf"
      using lp by simp
    have dr: "drop (Suc i) ?buf' = ?b # drop (Suc (Suc i)) buf"
      using Suc.prems(3) by (simp add: drop_update_cancel Cons_nth_drop_Suc [symmetric] upd_conv_take_nth_drop)
    have j: "Suc (Suc i) - length (be_digits ?n) = Suc i - length ?ds'"
      by (simp add: d)
    show ?thesis
      using False Suc.prems(1)
      by (simp add: Let_def sdrop_zero low_byte_nat ih t dr j) (simp add: d)
  qed
qed


lemma foldl_be_shift:
  "foldl (\<lambda>a c. a * 256 + uint (c::8 word)) a bs = a * 256 ^ length bs + be_val bs"
proof (induction bs arbitrary: a)
  case Nil
  show ?case by (simp add: be_val_def)
next
  case (Cons x xs)
  have "be_val (x # xs) = uint x * 256 ^ length xs + be_val xs"
    using Cons.IH [of "uint x"] by (simp add: be_val_def)
  then show ?case
    using Cons.IH [of "a * 256 + uint x"] by (simp add: algebra_simps)
qed

lemma be_val_Cons: "be_val (b # bs) = uint b * 256 ^ length bs + be_val bs"
  using foldl_be_shift [of "uint b" bs] by (simp add: be_val_def)

lemma be_val_snoc: "be_val (bs @ [b]) = be_val bs * 256 + uint b"
  by (simp add: be_val_def)

lemma be_val_bounds: "0 \<le> be_val bs \<and> be_val bs < 256 ^ length bs"
proof (induction bs rule: rev_induct)
  case Nil
  show ?case by (simp add: be_val_def)
next
  case (snoc x xs)
  have "uint x < 256" using uint_lt2p [of x] by simp
  moreover have "0 \<le> uint x" by simp
  ultimately show ?case using snoc.IH by (simp add: be_val_snoc)
qed

lemma be_decode_Cons: "be_decode (b # bs) = sint b * 256 ^ length bs + be_val bs"
  by (simp add: foldl_be_shift)

lemma uint_byte_of_nat: "n < 256 \<Longrightarrow> uint (of_nat n :: 8 word) = int n"
  by (simp add: unsigned_of_nat take_bit_nat_eq_self)

lemma be_val_digits: "be_val (be_digits n) = int n"
proof (induction n rule: be_digits.induct)
  case (1 n)
  show ?case
  proof (cases "n div 256 = 0")
    case True
    then have "n < 256" by (simp add: div_eq_0_iff)
    then show ?thesis
      using True by (subst be_digits.simps) (simp add: be_val_def uint_byte_of_nat)
  next
    case False
    have "int (n div 256) * 256 + int (n mod 256) = int n"
      by (metis mult.commute mult_div_mod_eq of_nat_add of_nat_mult of_nat_numeral)
    then show ?thesis
      using False "1.IH" [OF False]
      by (subst be_digits.simps) (simp add: be_val_snoc uint_byte_of_nat)
  qed
qed

lemma be_digits_hd_nonzero: "256 \<le> n \<Longrightarrow> hd (be_digits n) \<noteq> 0"
proof (induction n rule: be_digits.induct)
  case (1 n)
  from "1.prems" have nz: "n div 256 \<noteq> 0" by (simp add: div_eq_0_iff)
  have e: "be_digits n = be_digits (n div 256) @ [of_nat (n mod 256)]"
    using nz by (subst be_digits.simps) simp
  have h: "hd (be_digits n) = hd (be_digits (n div 256))"
    using be_digits_length_pos [of "n div 256"] by (simp add: e)
  show ?case
  proof (cases "256 \<le> n div 256")
    case True
    from "1.IH" [OF nz True] h show ?thesis by simp
  next
    case False
    then have lt: "n div 256 < 256" by simp
    then have "be_digits (n div 256) = [of_nat (n div 256)]"
      by (subst be_digits.simps) (simp add: div_eq_0_iff)
    moreover have "uint (of_nat (n div 256) :: 8 word) \<noteq> 0"
      using nz lt by (simp add: uint_byte_of_nat)
    ultimately show ?thesis using h by auto
  qed
qed

lemma be_digits_single: "length (be_digits n) = 1 \<Longrightarrow> n < 256"
  using be_digits_length_pos [of "n div 256"]
  by (subst (asm) be_digits.simps) (auto simp add: div_eq_0_iff split: if_splits)

lemma sint_byte_small:
  assumes "(b::8 word) < 0x80"
  shows "sint b = uint b"
proof -
  have "uint b < 128" using assms by (simp add: word_less_def)
  moreover have "- (2 ^ 7) \<le> uint b" by (rule order_trans [of _ 0]) simp_all
  ultimately have "signed_take_bit 7 (uint b) = uint b"
    by (simp add: signed_take_bit_int_eq_self_iff)
  then show ?thesis by (simp add: sint_uint)
qed

lemma sint_byte_le: "sint (b::8 word) \<le> 127"
  using sint_lt [of b] by simp

lemma uint_byte_ge: "0x80 \<le> (b::8 word) \<Longrightarrow> 128 \<le> uint b"
  by (simp add: word_le_def)

lemma be_decode_upper:
  "cs \<noteq> [] \<Longrightarrow> be_decode cs < 128 * 256 ^ (length cs - 1)"
proof (cases cs)
  case Nil
  assume "cs \<noteq> []"
  with Nil show ?thesis by simp
next
  case (Cons b bs)
  define P where "P = (256::int) ^ length bs"
  have "sint b * P \<le> 127 * P"
    using sint_byte_le [of b] by (simp add: mult_right_mono P_def)
  moreover have "be_val bs < P" using be_val_bounds [of bs] by (simp add: P_def)
  ultimately have "sint b * P + be_val bs < 128 * P" by linarith
  then show ?thesis using Cons by (simp add: be_decode_Cons P_def del: be_decode.simps)
qed


lemma be_val_digits_lower:
  "uint (hd (be_digits n)) * 256 ^ (length (be_digits n) - 1) \<le> int n"
proof (cases "be_digits n")
  case Nil
  then show ?thesis using be_digits_length_pos [of n] by simp
next
  case (Cons d rest)
  have "be_val (d # rest) = int n" using be_val_digits [of n] Cons by simp
  then show ?thesis
    using Cons be_val_bounds [of rest] by (simp add: be_val_Cons)
qed

lemma be_decode_sign_pad: "be_decode (sign_pad (be_digits n)) = int n"
proof (cases "be_digits n")
  case Nil
  then show ?thesis using be_digits_length_pos [of n] by simp
next
  case (Cons d rest)
  have v: "be_val (d # rest) = int n" using be_val_digits [of n] Cons by simp
  show ?thesis
  proof (cases "0x80 \<le> d")
    case True
    then show ?thesis
      using Cons v by (simp add: sign_pad_def be_decode_Cons del: be_decode.simps)
  next
    case False
    then have "sint d = uint d" by (simp add: sint_byte_small)
    then show ?thesis
      using Cons v False
      by (simp add: sign_pad_def be_decode_Cons be_val_Cons del: be_decode.simps)
  qed
qed

lemma sign_pad_shortest:
  assumes "cs \<noteq> []" and "be_decode cs = int n"
  shows "length (sign_pad (be_digits n)) \<le> length cs"
proof (rule ccontr)
  assume "\<not> length (sign_pad (be_digits n)) \<le> length cs"
  then have less: "length cs < length (sign_pad (be_digits n))" by simp
  let ?ds = "be_digits n"
  let ?k = "length ?ds - 1"
  have pos: "0 < length ?ds" by (rule be_digits_length_pos)
  have cpos: "0 < length cs" using assms(1) by simp
  have up: "int n < 128 * 256 ^ (length cs - 1)"
    using be_decode_upper [OF assms(1)] assms(2) by simp
  have low: "uint (hd ?ds) * 256 ^ ?k \<le> int n" by (rule be_val_digits_lower)
  show False
  proof (cases "0x80 \<le> hd ?ds")
    case True
    then have "length cs - 1 \<le> ?k" using less pos by (simp add: sign_pad_be_digits)
    then have "(256::int) ^ (length cs - 1) \<le> 256 ^ ?k"
      by (simp add: power_increasing)
    moreover have "128 * (256::int) ^ ?k \<le> uint (hd ?ds) * 256 ^ ?k"
      using uint_byte_ge [OF True] by (simp add: mult_right_mono)
    ultimately show False using up low by linarith
  next
    case False
    then have lc: "length cs < length ?ds" using less by (simp add: sign_pad_be_digits)
    then have two: "1 < length ?ds" using assms(1) by (cases cs) auto
    have "\<not> n < 256"
    proof
      assume "n < 256"
      then have "be_digits n = [of_nat n]"
        by (subst be_digits.simps) (simp add: div_eq_0_iff)
      with two show False by simp
    qed
    then have "hd ?ds \<noteq> 0" by (simp add: be_digits_hd_nonzero)
    then have "uint (hd ?ds) \<noteq> 0" by (simp add: uint_0_iff)
    then have "1 \<le> uint (hd ?ds)" using uint_ge_0 [of "hd ?ds"] by linarith
    then have "1 * (256::int) ^ ?k \<le> uint (hd ?ds) * 256 ^ ?k"
      by (intro mult_right_mono) simp_all
    then have a: "(256::int) ^ ?k \<le> int n" using low by linarith
    have "Suc (length cs - 1) \<le> ?k" using lc cpos by simp
    then have "(256::int) ^ Suc (length cs - 1) \<le> 256 ^ ?k"
      by (rule power_increasing) simp
    then have "256 * (256::int) ^ (length cs - 1) \<le> 256 ^ ?k"
      by (simp only: power_Suc)
    then show False using a up by linarith
  qed
qed

lemma drop_replicate_Suc_append: "drop m (replicate (Suc m) x @ ys) = x # ys"
  by (induction m) simp_all

lemma sint_long_long: "0 \<le> v \<Longrightarrow> v < 2 ^ 63 \<Longrightarrow> sint (word_of_int v :: 64 word) = v"
  by (simp add: signed_of_int signed_take_bit_int_eq_self)

lemma be_digits_top_byte:
  assumes "n < 2 ^ 63" and "length (be_digits n) = 8"
  shows "hd (be_digits n) < 0x80"
proof -
  have "uint (hd (be_digits n)) * 256 ^ 7 \<le> int n"
    using be_val_digits_lower [of n] assms(2) by simp
  moreover have "int n < 2 ^ 63" using assms(1) by (simp add: of_nat_less_iff [of n "2^63", simplified])
  ultimately have "uint (hd (be_digits n)) < 128" by simp
  then show ?thesis by (simp add: word_less_def)
qed

lemma OctetString_fromInt64_nonneg:
  assumes "0 \<le> v" and "v < 2 ^ 63"
  shows "OctetString_fromInt64 (word_of_int v) =
           Inr (sign_pad (be_digits (nat v)), int (length (sign_pad (be_digits (nat v)))))"
proof -
  let ?w = "word_of_int v :: 64 word"
  let ?ds = "be_digits (nat v)"
  define j where "j = 8 - length ?ds"
  define buf where "buf = replicate j (0::8 word) @ ?ds"
  have s: "sint ?w = v" using assms by (rule sint_long_long)
  have n63: "nat v < 2 ^ 63" using assms by (simp add: nat_less_iff)
  then have n: "nat v < 256 ^ Suc 7" by simp
  have pos: "0 < length ?ds" by (rule be_digits_length_pos)
  have le: "length ?ds \<le> 8" using be_digits_length_le [OF n] by simp
  have fill: "fromInt64_fill 7 ?w (replicate 8 0) = (int j, 0, buf)"
    using fill_nonneg [of ?w 7 "replicate 8 0"] assms n by (simp add: s j_def buf_def)
  have nth: "buf ! j = hd ?ds"
    using pos by (simp add: nth_append hd_conv_nth buf_def)
  have dropj: "drop j buf = ?ds" by (simp add: buf_def)
  have cnt: "8 - int j = int (length ?ds)" using le by (simp add: j_def)
  show ?thesis
  proof (cases "0x80 \<le> hd ?ds")
    case True
    have "length ?ds \<noteq> 8"
      using be_digits_top_byte [OF n63] True by auto
    then have "0 < j" using le by (simp add: j_def)
    then obtain m where m: "j = Suc m" by (cases j) auto
    have "buf ! m = 0" by (simp add: buf_def m nth_append del: replicate_Suc)
    then have "buf[m := 0] = buf" by (metis list_update_id)
    moreover have "drop m buf = 0 # ?ds"
      unfolding buf_def m by (rule drop_replicate_Suc_append)
    ultimately have d: "drop m (buf[m := 0]) = 0 # ?ds" by simp
    have i1: "int j - 1 = int m" by (simp add: m)
    have c1: "8 - int m = 1 + int (length ?ds)" using cnt by (simp add: m)
    have big: "128 \<le> buf ! j" using True nth by simp
    show ?thesis
      unfolding OctetString_fromInt64_def fill
      using True big by (simp add: sign_pad_be_digits Let_def i1 d c1) (simp add: m)
  next
    case False
    then have small: "\<not> 128 \<le> buf ! j" using nth by simp
    show ?thesis
      unfolding OctetString_fromInt64_def fill
      using False small by (simp add: sign_pad_be_digits dropj cnt)
  qed
qed

section \<open>Proofs: evaluation of the examples\<close>

lemmas ex_defs =
  ex_env_def ex_constants_def ex_descriptors_def ex_externals_def ex_reply_def ex_tb_def
  ex_bci_def ex_ai_def ex_ni_def ex_aci_def ex_stamp_def ex_cc_def ex_gprs_def
  ex_charge_info_def

lemmas run_defs =
  Validate_def ValidateTransferBatch_def ValidateNotification_def
  ValidateBatchControlInfo_def ValidateAccountingInfo_def ValidateNetworkInfo_def
  ValidateAuditControlInfo_def differs_from_TL_OK_def rap_result_def
  CreateTransferBatchRAPFile_def CreateBatchControlInfoRAPFile_def
  CreateAccountingInfoRAPFile_def CreateNetworkInfoRAPFile_def
  CreateAuditControlInfoRAPFile_def send_RAPFile_def CreateRAPFile_def
  EncodeAndUpload_def UploadFileToFtp_def OctetString_fromInt64_zero
  BatchContainsTaxes_def BatchContainsDiscounts_def BatchContainsPositiveCharges_def
  BatchContains_def callEvent_contains_def ChargeInfoContainsPositiveCharges_def
  c_str_def tag_number_def calloc_FatalReturn_def calloc_ReturnBatch_def
  TAPValidator_init_def Let_def

lemmas read_defs =
  run_result_def run_raps_def emitted_def rap_errors_def fatalReturn_errors_def

lemmas pred_defs =
  batch_has_taxes_def batch_has_discounts_def batch_has_positive_charges_def
  charge_info_positive_def batch_charge_infos_def basicServices_charge_infos_def
  lists_present_def charges_present_def charge_info_present_def basicServices_present_def

section \<open>The properties of the specification\<close>

text \<open>
  C1 (what the code does). The example batch without accounting section has sender
  \<open>AAAAA\<close> and recipient \<open>BBBBB\<close>; the catalogue allocates the sequence number
  \<open>00007\<close>. Both times the RAP batch goes out (to the catalogue and to the encoder)
  its header has sender \<open>AAAAA\<close> and recipient \<open>BBBBB\<close>: the two are not swapped.
\<close>

theorem C1_header_not_swapped:
  "tap_sender ex_tb_no_accounting = Some ''AAAAA''
   \<and> tap_recipient ex_tb_no_accounting = Some ''BBBBB''
   \<and> map rap_addressing
        (run_raps (Validate ex_env (DataInterChange_transferBatch ex_tb_no_accounting)
                     TAPValidator_init))
      = [(''AAAAA'', ''BBBBB'', ''00007''), (''AAAAA'', ''BBBBB'', ''00007'')]"
  by (simp add: run_defs ex_defs read_defs rap_addressing_def ex_tb_no_accounting_def
        tap_sender_def tap_recipient_def)

text \<open>
  In general: every RAP batch that a run of \<^verbatim>\<open>Validate\<close> sends has the TAP sender as
  its sender, the TAP recipient as its recipient, and the sequence number the catalogue
  gave.
\<close>

lemma RAP_header_keeps_TAP_addressing:
  assumes "Validate e (DataInterChange_transferBatch tb) s = Inr (r, s')"
  shows "list_all (\<lambda>rb. map_option c_str (tap_sender tb)
                          = Some (rap_sender (rapBatchControlInfoRap rb))
                      \<and> map_option c_str (tap_recipient tb)
                          = Some (rap_recipient (rapBatchControlInfoRap rb))
                      \<and> rapFileSequenceNumber (rapBatchControlInfoRap rb) = m_rapSequenceNum s')
           (emitted s s')"
  using Validate_Inr [OF assms] by (auto simp add: rap_sent_def list_all_iff)

text \<open>
  C2 (what the code does). With a database that refuses the RAP batch,
  \<^verbatim>\<open>CreateTransferBatchRAPFile\<close> returns \<open>-1\<close> for the example batch without accounting
  section, and \<^verbatim>\<open>Validate\<close> returns \<^verbatim>\<open>FATAL_ERROR\<close> all the same.
\<close>

theorem C2_fatal_error_after_failed_rap:
  "run_result (CreateTransferBatchRAPFile ex_env_db_down ex_tb_no_accounting
                 (TF_BATCH_ACCOUNTING_INFO_MISSING (tap_constants ex_env_db_down))
                 TAPValidator_init) = Inr (- 1)
   \<and> run_result (Validate ex_env_db_down (DataInterChange_transferBatch ex_tb_no_accounting)
                   TAPValidator_init) = Inr FATAL_ERROR"
  by (simp add: run_defs ex_defs read_defs ex_env_db_down_def ex_tb_no_accounting_def)

text \<open>
  Every section validator answers by the sign of the result:
  \<^verbatim>\<open>FATAL_ERROR\<close> exactly for a non-negative result of the RAP creation.
\<close>

lemma rap_result_FATAL_ERROR:
  "rap_result m = Inr (r, s') \<Longrightarrow> (r = FATAL_ERROR) = (\<exists>res. m = Inr (res, s') \<and> res \<ge> 0)"
  by (auto simp add: rap_result_Inr split: if_splits)

text \<open>
  C3 (what the code does). The example batch without accounting section and without
  sender does not get the answer \<^verbatim>\<open>VALIDATION_IMPOSSIBLE\<close>: the missing section is
  found first, and building its RAP stops at the assertion on the sender. A batch
  without batch control information stops at the first dereference.
\<close>

theorem C3_sections_checked_before_triple:
  "tap_sender ex_tb_no_sender = None
   \<and> Validate ex_env (DataInterChange_transferBatch ex_tb_no_sender) TAPValidator_init
       = Inl AssertionFailed
   \<and> Validate ex_env (DataInterChange_transferBatch (ex_tb\<lparr>batchControlInfo := None\<rparr>))
       TAPValidator_init = Inl NullDereference"
  by (simp add: run_defs ex_defs read_defs ex_tb_no_sender_def tap_sender_def)

text \<open>
  Where a run on a transfer batch returns at all, it answers as if the triple had been
  checked first: without sender, recipient or file sequence number the answer is
  \<^verbatim>\<open>VALIDATION_IMPOSSIBLE\<close> and nothing has been sent.
\<close>

lemma send_RAPFile_needs_addresses:
  "send_RAPFile e bci ar rd s = Inr out \<Longrightarrow> bci_sender bci \<noteq> None \<and> bci_recipient bci \<noteq> None"
  by (auto simp add: send_RAPFile_def ebind_eq_Inr)

lemma CreateTransferBatchRAPFile_needs_triple:
  assumes "CreateTransferBatchRAPFile e tb code s = Inr out"
  shows "\<exists>bci. batchControlInfo tb = Some bci \<and> bci_sender bci \<noteq> None
           \<and> bci_recipient bci \<noteq> None \<and> bci_fileSequenceNumber bci \<noteq> None"
  using assms
  by (auto simp add: CreateTransferBatchRAPFile_def ebind_eq_Inr Let_def
        dest!: send_RAPFile_needs_addresses)

lemma Validate_without_triple:
  assumes "Validate e (DataInterChange_transferBatch tb) s = Inr (r, s')"
    and "case batchControlInfo tb of
           None \<Rightarrow> True
         | Some bci \<Rightarrow> bci_sender bci = None \<or> bci_recipient bci = None
                        \<or> bci_fileSequenceNumber bci = None"
  shows "r = VALIDATION_IMPOSSIBLE \<and> s' = s"
proof -
  from assms(1) have V: "ValidateTransferBatch e tb s = Inr (r, s')"
    by (simp add: Validate_def)
  have no_rap: "\<And>code out. CreateTransferBatchRAPFile e tb code s \<noteq> Inr out"
    using assms(2) by (auto dest!: CreateTransferBatchRAPFile_needs_triple)
  from V no_rap have present: "batchControlInfo tb \<noteq> None" "accountingInfo tb \<noteq> None"
    "networkInfo tb \<noteq> None" "auditControlInfo tb \<noteq> None"
    by (auto simp add: ValidateTransferBatch_def rap_result_Inr ebind_eq_Inr split: if_splits)
  from present(1) assms(2) have "ValidateBatchControlInfo e tb s = Inr (VALIDATION_IMPOSSIBLE, s)"
    by (auto simp add: ValidateBatchControlInfo_def)
  with ValidateTransferBatch_sections [OF V present] show ?thesis by auto
qed





text \<open>
  C6. For every integer \<open>v\<close> with \<open>0 \<le> v < 2^63\<close>, \<^verbatim>\<open>OctetString_fromInt64\<close> does not
  throw; it returns the base-256 digits of \<open>v\<close>, produced from the least significant
  end until the remaining value is zero, with one zero octet in front exactly when the
  leading digit has its high bit set, together with their count. These octets decode
  (big-endian, two's complement) to \<open>v\<close>, and no non-empty octet string that decodes to
  \<open>v\<close> is shorter. No value in this range needs more than eight octets.
\<close>

theorem C6_OctetString_fromInt64_shortest:
  assumes "0 \<le> v" and "v < 2 ^ 63"
  shows "OctetString_fromInt64 (word_of_int v) =
           Inr (sign_pad (be_digits (nat v)), int (length (sign_pad (be_digits (nat v)))))
         \<and> be_decode (sign_pad (be_digits (nat v))) = v
         \<and> length (sign_pad (be_digits (nat v))) \<le> 8
         \<and> (\<forall>cs. cs \<noteq> [] \<and> be_decode cs = v
                \<longrightarrow> length (sign_pad (be_digits (nat v))) \<le> length cs)"
proof -
  have n: "int (nat v) = v" using assms(1) by simp
  have dec: "be_decode (sign_pad (be_digits (nat v))) = v"
    using be_decode_sign_pad [of "nat v"] n by simp
  have short: "\<forall>cs. cs \<noteq> [] \<and> be_decode cs = v
                 \<longrightarrow> length (sign_pad (be_digits (nat v))) \<le> length cs"
    using sign_pad_shortest [of _ "nat v"] n by auto
  have n63: "nat v < 2 ^ 63" using assms by (simp add: nat_less_iff)
  then have "nat v < 256 ^ Suc 7" by simp
  then have le: "length (be_digits (nat v)) \<le> 8"
    using be_digits_length_le [of "nat v" 7] by simp
  have "length (sign_pad (be_digits (nat v))) \<le> 8"
  proof (cases "0x80 \<le> hd (be_digits (nat v))")
    case True
    then have "\<not> hd (be_digits (nat v)) < 0x80" by (simp add: not_less)
    then have "length (be_digits (nat v)) \<noteq> 8"
      using be_digits_top_byte [OF n63] by blast
    then show ?thesis using le True by (simp add: sign_pad_be_digits)
  next
    case False
    then show ?thesis using le by (simp add: sign_pad_be_digits)
  qed
  with OctetString_fromInt64_nonneg [OF assms] dec short show ?thesis by blast
qed

lemma be_digits_255: "be_digits 255 = [255]"
  by (subst be_digits.simps) simp

theorem C6_OctetString_fromInt64_shortest_witness:
  "(0::int) \<le> 255 \<and> (255::int) < 2 ^ 63
   \<and> OctetString_fromInt64 255 = Inr ([0, 255], 2) \<and> be_decode [0, 255] = 255"
  using C6_OctetString_fromInt64_shortest [of 255]
  by (simp add: be_digits_255 sign_pad_def)




text \<open>
  C8 (amended). For every decoded TAP input that satisfies every validation rule and
  in which the pointers that the run follows are present (the call event list; the
  lists on the way to the charge information when taxation, discounting or currency
  conversion is missing; the charge detail lists and charges when currency conversion
  is missing), \<^verbatim>\<open>Validate\<close> returns \<^verbatim>\<open>TAP_VALID\<close> and leaves the state as it was: no
  call to the catalogue, the database, the file system, the encoder or the FTP client
  is made.
\<close>

theorem C8_soundness:
  assumes "tap_rules e di" and "pointers_present di"
  shows "Validate e di s = Inr (TAP_VALID, s)"
proof (cases di)
  case (DataInterChange_transferBatch tb)
  with assms show ?thesis
    by (simp add: Validate_def ValidateTransferBatch_valid del: pointers_present.simps)
next
  case (DataInterChange_notification n)
  with assms show ?thesis
    by (simp add: Validate_def ValidateNotification_def notification_rules_def)
next
  case DataInterChange_NOTHING
  with assms show ?thesis by simp
qed

theorem C8_soundness_witness:
  "tap_rules ex_env (DataInterChange_transferBatch ex_tb)
   \<and> pointers_present (DataInterChange_transferBatch ex_tb)
   \<and> Validate ex_env (DataInterChange_transferBatch ex_tb) TAPValidator_init
       = Inr (TAP_VALID, TAPValidator_init)
   \<and> tap_rules ex_env (DataInterChange_transferBatch ex_tb_groups)
   \<and> pointers_present (DataInterChange_transferBatch ex_tb_groups)
   \<and> lists_present ex_tb_groups = False
   \<and> Validate ex_env (DataInterChange_transferBatch ex_tb_groups) TAPValidator_init
       = Inr (TAP_VALID, TAPValidator_init)"
proof -
  have r: "tap_rules ex_env (DataInterChange_transferBatch ex_tb)"
    by (simp add: pred_defs ex_defs
          tap_rules.simps transferBatch_rules_def batchControl_rules_def accounting_rules_def
          network_rules_def audit_rules_def cc_entries_rules_def)
  have p: "pointers_present (DataInterChange_transferBatch ex_tb)"
    by (simp add: pred_defs ex_defs)
  have r': "tap_rules ex_env (DataInterChange_transferBatch ex_tb_groups)"
    by (simp add: pred_defs ex_defs ex_tb_groups_def ex_tb_mo_def
          tap_rules.simps transferBatch_rules_def batchControl_rules_def accounting_rules_def
          network_rules_def audit_rules_def cc_entries_rules_def)
  have p': "pointers_present (DataInterChange_transferBatch ex_tb_groups)"
    by (simp add: pred_defs ex_defs ex_tb_groups_def ex_tb_mo_def)
  have l: "lists_present ex_tb_groups = False"
    by (simp add: pred_defs ex_defs ex_tb_groups_def ex_tb_mo_def)
  from r p r' p' l C8_soundness [OF r p, of TAPValidator_init]
    C8_soundness [OF r' p', of TAPValidator_init]
  show ?thesis by simp
qed

theorem C8_missing_list_counterexample:
  "tap_rules ex_env (DataInterChange_transferBatch ex_tb_mo)
   \<and> Validate ex_env (DataInterChange_transferBatch ex_tb_mo) TAPValidator_init
       = Inl NullDereference
   \<and> tap_rules ex_env (DataInterChange_transferBatch ex_tb_groups_no_calls)
   \<and> Validate ex_env (DataInterChange_transferBatch ex_tb_groups_no_calls) TAPValidator_init
       = Inl NullDereference
   \<and> tap_rules ex_env (DataInterChange_transferBatch ex_tb_no_details)
   \<and> Validate ex_env (DataInterChange_transferBatch ex_tb_no_details) TAPValidator_init
       = Inl NullDereference"
  by (simp add: pred_defs run_defs ex_defs ex_tb_mo_def ex_tb_groups_def
        ex_tb_groups_no_calls_def ex_tb_no_details_def
        tap_rules.simps transferBatch_rules_def batchControl_rules_def accounting_rules_def
        network_rules_def audit_rules_def cc_entries_rules_def)

text \<open>
  C9. For a Notification, \<^verbatim>\<open>Validate\<close> returns \<^verbatim>\<open>TAP_VALID\<close> when sender, recipient
  and file sequence number are all present and \<^verbatim>\<open>VALIDATION_IMPOSSIBLE\<close> otherwise;
  for the remaining variant it returns \<^verbatim>\<open>VALIDATION_IMPOSSIBLE\<close>. The state, and with
  it the trace of outside calls, is unchanged in each case: no RAP is emitted.
\<close>

theorem C9_notification_and_other_variants:
  "Validate e (DataInterChange_notification n) s =
     Inr (if ntf_sender n \<noteq> None \<and> ntf_recipient n \<noteq> None \<and> ntf_fileSequenceNumber n \<noteq> None
          then TAP_VALID else VALIDATION_IMPOSSIBLE, s)
   \<and> Validate e DataInterChange_NOTHING s = Inr (VALIDATION_IMPOSSIBLE, s)"
  by (simp add: Validate_def ValidateNotification_def)

theorem C9_notification_and_other_variants_witness:
  "Validate ex_env (DataInterChange_notification ex_notification) TAPValidator_init
     = Inr (TAP_VALID, TAPValidator_init)
   \<and> Validate ex_env (DataInterChange_notification (ex_notification\<lparr>ntf_recipient := None\<rparr>))
       TAPValidator_init = Inr (VALIDATION_IMPOSSIBLE, TAPValidator_init)
   \<and> Validate ex_env DataInterChange_NOTHING TAPValidator_init
       = Inr (VALIDATION_IMPOSSIBLE, TAPValidator_init)"
  using C9_notification_and_other_variants [of ex_env ex_notification TAPValidator_init]
    C9_notification_and_other_variants
      [of ex_env "ex_notification\<lparr>ntf_recipient := None\<rparr>" TAPValidator_init]
  by (simp add: ex_notification_def)

text \<open>
  C10. Whenever \<^verbatim>\<open>Validate\<close> returns \<^verbatim>\<open>TAP_VALID\<close> on a transfer batch whose currency
  conversion list is present, no two entries of the list have the same exchange rate
  code, and every entry carries its code, its number of decimal places and its rate.
\<close>

theorem C10_currency_conversion_unique:
  assumes "Validate e (DataInterChange_transferBatch tb) s = Inr (TAP_VALID, s')"
    and "accountingInfo tb = Some ai" and "currencyConversionInfo ai = Some l"
  shows "distinct (map exchangeRateCode l)
         \<and> list_all (\<lambda>cc. exchangeRateCode cc \<noteq> None \<and> numberOfDecimalPlaces cc \<noteq> None
                          \<and> exchangeRate cc \<noteq> None) l"
proof -
  from assms(1) have V: "ValidateTransferBatch e tb s = Inr (TAP_VALID, s')"
    by (simp add: Validate_def)
  have present: "batchControlInfo tb \<noteq> None" "networkInfo tb \<noteq> None"
    "auditControlInfo tb \<noteq> None"
    using V assms(2)
    by (auto simp add: ValidateTransferBatch_def rap_result_Inr ebind_eq_Inr split: if_splits)
  from ValidateTransferBatch_sections [OF V present(1) _ present(2,3)] assms(2)
  have "ValidateAccountingInfo e tb s = Inr (TAP_VALID, s)" by auto
  from ValidateAccountingInfo_Inr [OF assms(2) this]
  have "accounting_first_rule e tb ai = None" by (auto split: option.splits)
  with assms(3) have "cc_first_rule (tap_constants e) l = None"
    by (auto simp add: accounting_first_rule_def Let_def split: if_splits)
  then have "cc_entries_rules l"
    by (simp add: cc_first_rule_None_iff cc_entries_rules_iff [of l "tap_constants e"])
  then show ?thesis by (simp add: cc_entries_rules_def)
qed

theorem C10_currency_conversion_unique_witness:
  "Validate ex_env (DataInterChange_transferBatch ex_tb) TAPValidator_init
     = Inr (TAP_VALID, TAPValidator_init)
   \<and> accountingInfo ex_tb = Some ex_ai
   \<and> currencyConversionInfo ex_ai = Some [ex_cc 1, ex_cc 2]
   \<and> distinct (map exchangeRateCode [ex_cc 1, ex_cc 2])"
proof -
  have v: "Validate ex_env (DataInterChange_transferBatch ex_tb) TAPValidator_init
             = Inr (TAP_VALID, TAPValidator_init)"
    by (simp add: run_defs ex_defs)
  have a: "accountingInfo ex_tb = Some ex_ai" by (simp add: ex_tb_def)
  have c: "currencyConversionInfo ex_ai = Some [ex_cc 1, ex_cc 2]" by (simp add: ex_ai_def)
  from C10_currency_conversion_unique [OF v a c] v a c show ?thesis by simp
qed

end
